theory Spec2Isabelle
  imports Main "HOL-Library.Word" "HOL-Library.Signed_Division"
begin

section \<open>Common types\<close>

text \<open>
  The error codes that cross the interfaces of \<^verbatim>\<open>async.c\<close> and \<^verbatim>\<open>assoc.c\<close>.
  \<^verbatim>\<open>errno.h\<close> is not part of the sources at hand, so the codes are kept symbolic;
  \<open>EOK\<close> is the integer 0 that \<^verbatim>\<open>async_wait_timeout\<close> returns on success.
\<close>

datatype errno = EOK | ENOMEM | ENOENT | EHANGUP | ETIMEOUT | EINVAL | EIO | ENXIO

text \<open>
  What a C run can end in besides a return value: a dereference of a null pointer, and
  an access through a pointer to memory that holds no object of the expected type (a
  block that was never allocated, a freed connection or outstanding message, the head of
  an empty list taken for a node).
\<close>

datatype fault = NullDeref | BadPointer

text \<open>
  \<^verbatim>\<open>ipcarg_t\<close> and \<^verbatim>\<open>ipc_callid_t\<close> are the machine word of the architecture; the
  kernel tree at hand is amd64. Pointers into the heaps of the model are natural numbers,
  a null pointer is \<open>None\<close>.
\<close>

type_synonym ipcarg_t = "64 word"
type_synonym ipc_callid_t = "64 word"
type_synonym pstid_t = nat
type_synonym ptr = nat

section \<open>Timeval arithmetic of \<^verbatim>\<open>async.c\<close>\<close>

text \<open>
  \<^verbatim>\<open>struct timeval\<close>: seconds and microseconds, both signed. The arithmetic is
  modelled on unbounded integers (no claim depends on overflow); \<^verbatim>\<open>/\<close> and \<^verbatim>\<open>%\<close> of C
  truncate towards zero, which is \<open>sdiv\<close> and \<open>smod\<close>.
\<close>

record timeval =
  tv_sec :: int
  tv_usec :: int

text \<open>
  \<^verbatim>\<open>
  static void tv_add(struct timeval *tv, suseconds_t usecs)
  {
          tv->tv_sec += usecs / 1000000;
          tv->tv_usec += usecs % 1000000;
          if (tv->tv_usec > 1000000) {
                  tv->tv_sec++;
                  tv->tv_usec -= 1000000;
          }
  }
  \<close>
\<close>

definition tv_add :: "timeval \<Rightarrow> int \<Rightarrow> timeval" where
  "tv_add tv usecs =
     (let tv1 = tv\<lparr>tv_sec := tv_sec tv + usecs sdiv 1000000\<rparr>;
          tv2 = tv1\<lparr>tv_usec := tv_usec tv1 + usecs smod 1000000\<rparr>
      in if tv_usec tv2 > 1000000
         then tv2\<lparr>tv_sec := tv_sec tv2 + 1, tv_usec := tv_usec tv2 - 1000000\<rparr>
         else tv2)"

text \<open>
  \<^verbatim>\<open>
  static suseconds_t tv_sub(struct timeval *tv1, struct timeval *tv2)
  static int tv_gt(struct timeval *tv1, struct timeval *tv2)
  \<close>
\<close>

definition tv_sub :: "timeval \<Rightarrow> timeval \<Rightarrow> int" where
  "tv_sub tv1 tv2 = (tv_usec tv1 - tv_usec tv2) + (tv_sec tv1 - tv_sec tv2) * 1000000"

definition tv_gt :: "timeval \<Rightarrow> timeval \<Rightarrow> bool" where
  "tv_gt tv1 tv2 =
     (if tv_sec tv1 > tv_sec tv2 then True
      else if tv_sec tv1 = tv_sec tv2 \<and> tv_usec tv1 > tv_usec tv2 then True
      else False)"

text \<open>The invariant the specification gives for a timeval.\<close>

definition normalized :: "timeval \<Rightarrow> bool" where
  "normalized tv = (0 \<le> tv_usec tv \<and> tv_usec tv < 1000000)"

section \<open>The asynchronous framework of \<^verbatim>\<open>async.c\<close>\<close>

subsection \<open>Data\<close>

text \<open>
  \<^verbatim>\<open>ipc_call_t\<close> (declared in \<^verbatim>\<open>ipc/ipc.h\<close>, which is not at hand): the phone hash the
  router reads, the method and the arguments.
\<close>

record ipc_call_t =
  in_phone_hash :: ipcarg_t
  ipc_method :: ipcarg_t
  ipc_arg1 :: ipcarg_t
  ipc_arg2 :: ipcarg_t
  ipc_arg3 :: ipcarg_t

text \<open>
  \<^verbatim>\<open>
  typedef struct {
          link_t link;
          ipc_callid_t callid;
          ipc_call_t call;
  } msg_t;
  \<close>
  The \<open>link\<close> field is the position of the node in the queue it is linked into.
\<close>

record msg_t =
  callid :: ipc_callid_t
  call :: ipc_call_t

text \<open>
  \<^verbatim>\<open>connection_t\<close>. The FIFO \<open>msg_queue\<close> is an intrusive list of \<^verbatim>\<open>malloc\<close>'ed
  \<open>msg_t\<close> nodes; the model keeps the nodes in queue order, each with its address.
  \<open>cthread\<close> is a function pointer: the record holds its identity, and the functions
  that call through it take the interpretation of the identities as an argument.
\<close>

record connection_t =
  conn_in_phone_hash :: ipcarg_t
  msg_queue :: "(ptr \<times> msg_t) list"
  conn_ptid :: pstid_t
  conn_active :: bool
  conn_callid :: ipc_callid_t
  conn_call :: ipc_call_t
  cthread :: nat

text \<open>
  \<^verbatim>\<open>amsg_t\<close>. \<open>link\<close> is the position in \<open>timeout_list\<close>; \<open>dataptr\<close> is a pointer to
  the caller's answer buffer, or null.
\<close>

record amsg_t =
  m_ptid :: pstid_t
  m_active :: bool
  m_done :: bool
  m_dataptr :: "ptr option"
  m_expires :: timeval
  m_has_timeout :: bool
  m_retval :: ipcarg_t

text \<open>
  The calls that leave the module and the releases of memory, in the order in which they
  happen: \<^verbatim>\<open>psthread_add_ready\<close>, \<^verbatim>\<open>ipc_answer_fast(callid, rc, 0, 0)\<close>,
  \<^verbatim>\<open>ipc_call_async_2\<close>, the removal of an item from the connection hash table, and
  \<^verbatim>\<open>free\<close> of a connection, of a queued message and of an outstanding message.
\<close>

datatype event =
    EvAddReady pstid_t
  | EvAnswer ipc_callid_t errno
  | EvCallAsync int ipcarg_t ipcarg_t ipcarg_t ptr
  | EvHashRemove ipcarg_t ptr
  | EvFreeConn ptr
  | EvFreeMsg ptr
  | EvFreeAmsg ptr

text \<open>
  The state the functions of \<^verbatim>\<open>async.c\<close> share: the connection hash table (its chains,
  holding pointers to connections), the connections and the outstanding messages (both
  reached through several pointers, so both are stores), the callers' answer buffers,
  the timeout list, and the trace.

  \<^verbatim>\<open>free\<close> takes the block out of its store: a freed connection leaves \<open>conns\<close>, a
  freed outstanding message leaves \<open>amsgs\<close>, and an access through a pointer to a
  block that is in no store ends the run in \<open>BadPointer\<close>.
\<close>

record async_state =
  conn_hash_table :: "nat \<Rightarrow> ptr list"
  conns :: "ptr \<rightharpoonup> connection_t"
  amsgs :: "ptr \<rightharpoonup> amsg_t"
  bufs :: "ptr \<rightharpoonup> ipc_call_t"
  timeout_list :: "ptr list"
  trace :: "event list"

subsection \<open>Lists and the connection hash table\<close>

text \<open>
  Modelled from the spec: \<^verbatim>\<open>list_append\<close> and \<^verbatim>\<open>list_empty\<close> of \<^verbatim>\<open>libadt/list.h\<close>,
  which is not at hand. \<^verbatim>\<open>list_append(link, head)\<close> appends the node to the list
  (``append to the connection's FIFO''); \<^verbatim>\<open>head.next\<close> is the first node.
\<close>

definition list_append :: "'a \<Rightarrow> 'a list \<Rightarrow> 'a list" where
  "list_append x xs = xs @ [x]"

definition list_empty :: "'a list \<Rightarrow> bool" where
  "list_empty xs = (xs = [])"

text \<open>
  \<^verbatim>\<open>
  #define CONN_HASH_TABLE_CHAINS 32
  static hash_index_t conn_hash(unsigned long *key)
  {
          assert(key);
          return ((*key) >> 4) % CONN_HASH_TABLE_CHAINS;
  }
  static int conn_compare(unsigned long key[], hash_count_t keys, link_t *item)
  {
          hs = hash_table_get_instance(item, connection_t, link);
          return key[0] == hs->in_phone_hash;
  }
  static void conn_remove(link_t *item)
  {
          free(hash_table_get_instance(item, connection_t, link));
  }
  \<close>
  An item of a chain that was never allocated compares unequal.
\<close>

definition CONN_HASH_TABLE_CHAINS :: nat where
  "CONN_HASH_TABLE_CHAINS = 32"

definition conn_hash :: "ipcarg_t \<Rightarrow> nat" where
  "conn_hash key = unat (drop_bit 4 key) mod CONN_HASH_TABLE_CHAINS"

definition conn_compare :: "async_state \<Rightarrow> ipcarg_t \<Rightarrow> ptr \<Rightarrow> bool" where
  "conn_compare s key item =
     (case conns s item of None \<Rightarrow> False | Some hs \<Rightarrow> key = conn_in_phone_hash hs)"

definition conn_remove :: "ptr \<Rightarrow> async_state \<Rightarrow> async_state" where
  "conn_remove item s =
     s\<lparr>conns := (conns s)(item := None), trace := trace s @ [EvFreeConn item]\<rparr>"

text \<open>
  Modelled from the spec: \<^verbatim>\<open>hash_table_find\<close> and \<^verbatim>\<open>hash_table_remove\<close> of
  \<^verbatim>\<open>libadt/hash_table.c\<close>, which is not at hand (``open-chained hash map, 32 buckets,
  hash = (key >> 4) mod 32; key unique; remove-callback frees the Connection''). Find
  walks the chain the key hashes to and returns the first item that compares equal;
  remove unlinks that item from its chain and calls the remove callback on it.
\<close>

definition hash_table_find :: "async_state \<Rightarrow> ipcarg_t \<Rightarrow> ptr option" where
  "hash_table_find s key = find (conn_compare s key) (conn_hash_table s (conn_hash key))"

definition hash_table_remove :: "ipcarg_t \<Rightarrow> async_state \<Rightarrow> async_state" where
  "hash_table_remove key s =
     (case hash_table_find s key of
        None \<Rightarrow> s
      | Some item \<Rightarrow>
          conn_remove item
            (s\<lparr>conn_hash_table :=
                  (conn_hash_table s)
                    (conn_hash key := remove1 item (conn_hash_table s (conn_hash key))),
               trace := trace s @ [EvHashRemove key item]\<rparr>))"

subsection \<open>The connection router\<close>

text \<open>
  \<^verbatim>\<open>
  static int route_call(ipc_callid_t callid, ipc_call_t *call)
  {
          futex_down(&async_futex);
          key = call->in_phone_hash;
          hlp = hash_table_find(&conn_hash_table, &key);
          if (!hlp) {
                  futex_up(&async_futex);
                  return 0;
          }
          conn = hash_table_get_instance(hlp, connection_t, link);

          msg = malloc(sizeof(*msg));
          msg->callid = callid;
          msg->call = *call;
          list_append(&msg->link, &conn->msg_queue);

          if (!conn->active) {
                  conn->active = 1;
                  psthread_add_ready(conn->ptid);
          }
          futex_up(&async_futex);
          return 1;
  }
  \<close>
  The argument \<open>mp\<close> is what \<^verbatim>\<open>malloc\<close> returns: the address of the new node, or null.
\<close>

definition route_call ::
  "ipc_callid_t \<Rightarrow> ipc_call_t \<Rightarrow> ptr option \<Rightarrow> async_state \<Rightarrow> fault + (bool \<times> async_state)" where
  "route_call cid c mp s =
     (let key = in_phone_hash c in
      case hash_table_find s key of
        None \<Rightarrow> Inr (False, s)
      | Some hlp \<Rightarrow>
          (case mp of
             None \<Rightarrow> Inl NullDeref
           | Some m \<Rightarrow>
               (case conns s hlp of
                  None \<Rightarrow> Inl BadPointer
                | Some conn \<Rightarrow>
                    let conn1 = conn\<lparr>msg_queue :=
                                  list_append (m, \<lparr>callid = cid, call = c\<rparr>) (msg_queue conn)\<rparr>
                    in if \<not> conn_active conn1
                       then Inr (True,
                              s\<lparr>conns := (conns s)(hlp \<mapsto> conn1\<lparr>conn_active := True\<rparr>),
                                trace := trace s @ [EvAddReady (conn_ptid conn1)]\<rparr>)
                       else Inr (True, s\<lparr>conns := (conns s)(hlp \<mapsto> conn1)\<rparr>))))"

text \<open>
  \<^verbatim>\<open>
  ipc_callid_t async_get_call(ipc_call_t *call)
  {
          futex_down(&async_futex);
          conn = PS_connection;
          if (list_empty(&conn->msg_queue)) {
                  conn->active = 0;
                  psthread_schedule_next_adv(PS_TO_MANAGER);
          }
          msg = list_get_instance(conn->msg_queue.next, msg_t, link);
          list_remove(&msg->link);
          callid = msg->callid;
          *call = msg->call;
          free(msg);
          futex_up(&async_futex);
          return callid;
  }
  \<close>
  \<open>pc\<close> is the fibril-local \<^verbatim>\<open>PS_connection\<close>. \<open>sched\<close> is what the manager and the
  other fibrils do to the state between the moment this fibril gives up the processor
  and the moment it is resumed. When the queue is still empty at that moment,
  \<^verbatim>\<open>conn->msg_queue.next\<close> is the list head itself and the code treats memory that is no
  \<open>msg_t\<close> as one: the run ends in \<open>BadPointer\<close>.
\<close>

definition async_get_call ::
  "ptr \<Rightarrow> (async_state \<Rightarrow> fault + async_state) \<Rightarrow> async_state \<Rightarrow>
     fault + ((ipc_callid_t \<times> ipc_call_t) \<times> async_state)" where
  "async_get_call pc sched s =
     (case conns s pc of
        None \<Rightarrow> Inl BadPointer
      | Some conn \<Rightarrow>
          (case (if list_empty (msg_queue conn)
                 then sched (s\<lparr>conns := (conns s)(pc \<mapsto> conn\<lparr>conn_active := False\<rparr>)\<rparr>)
                 else Inr s) of
             Inl e \<Rightarrow> Inl e
           | Inr s1 \<Rightarrow>
               (case conns s1 pc of
                  None \<Rightarrow> Inl BadPointer
                | Some conn1 \<Rightarrow>
                    (case msg_queue conn1 of
                       [] \<Rightarrow> Inl BadPointer
                     | (m, msg) # rest \<Rightarrow>
                         Inr ((callid msg, call msg),
                              s1\<lparr>conns := (conns s1)(pc \<mapsto> conn1\<lparr>msg_queue := rest\<rparr>),
                                 trace := trace s1 @ [EvFreeMsg m]\<rparr>)))))"

text \<open>
  \<^verbatim>\<open>
  static int connection_thread(void *arg)
  {
          PS_connection = (connection_t *)arg;
          conn = PS_connection;
          conn->cthread(conn->callid, &conn->call);

          /* Remove myself from connection hash table */
          futex_down(&async_futex);
          key = conn->in_phone_hash;
          hash_table_remove(&conn_hash_table, &key, 1);
          futex_up(&async_futex);
          /* Answer all remaining messages with ehangup */
          while (!list_empty(&conn->msg_queue)) {
                  msg = list_get_instance(conn->msg_queue.next, msg_t, link);
                  list_remove(&msg->link);
                  ipc_answer_fast(msg->callid, EHANGUP, 0, 0);
                  free(msg);
          }
  }
  \<close>
  The loop is \<open>connection_thread_loop\<close>. \<open>run\<close> interprets the handler pointers:
  \<open>run h callid call\<close> is what the handler \<open>h\<close> does to the state.
\<close>

function connection_thread_loop :: "ptr \<Rightarrow> async_state \<Rightarrow> fault + async_state" where
  "connection_thread_loop pc s =
     (case conns s pc of
        None \<Rightarrow> Inl BadPointer
      | Some conn \<Rightarrow>
          (case msg_queue conn of
             [] \<Rightarrow> Inr s
           | (m, msg) # rest \<Rightarrow>
               connection_thread_loop pc
                 (s\<lparr>conns := (conns s)(pc \<mapsto> conn\<lparr>msg_queue := rest\<rparr>),
                    trace := trace s @ [EvAnswer (callid msg) EHANGUP, EvFreeMsg m]\<rparr>)))"
  by pat_completeness auto
termination
  by (relation "measure (\<lambda>(pc, s). case conns s pc of None \<Rightarrow> 0
                                     | Some conn \<Rightarrow> length (msg_queue conn))") auto

declare connection_thread_loop.simps [simp del]

definition connection_thread ::
  "(nat \<Rightarrow> ipc_callid_t \<Rightarrow> ipc_call_t \<Rightarrow> async_state \<Rightarrow> async_state) \<Rightarrow> ptr \<Rightarrow> async_state \<Rightarrow>
     fault + async_state" where
  "connection_thread run arg s =
     (case conns s arg of
        None \<Rightarrow> Inl BadPointer
      | Some conn \<Rightarrow>
          (let s1 = run (cthread conn) (conn_callid conn) (conn_call conn) s in
           case conns s1 arg of
             None \<Rightarrow> Inl BadPointer
           | Some conn1 \<Rightarrow>
               connection_thread_loop arg (hash_table_remove (conn_in_phone_hash conn1) s1)))"

subsection \<open>The reply correlator\<close>

text \<open>
  \<^verbatim>\<open>
  aid_t async_send_2(int phoneid, ipcarg_t method, ipcarg_t arg1, ipcarg_t arg2,
                     ipc_call_t *dataptr)
  {
          msg = malloc(sizeof(*msg));
          msg->active = 1;
          msg->done = 0;
          msg->dataptr = dataptr;
          ipc_call_async_2(phoneid,method,arg1,arg2,msg,reply_received);
          return (aid_t) msg;
  }
  \<close>
  \<open>mp\<close> is what \<^verbatim>\<open>malloc\<close> returns: null, or the address of the block together with
  the contents the block happens to have (only three fields are initialised).
\<close>

definition async_send_2 ::
  "int \<Rightarrow> ipcarg_t \<Rightarrow> ipcarg_t \<Rightarrow> ipcarg_t \<Rightarrow> ptr option \<Rightarrow> (ptr \<times> amsg_t) option \<Rightarrow>
     async_state \<Rightarrow> fault + (ptr \<times> async_state)" where
  "async_send_2 phoneid method a1 a2 dataptr mp s =
     (case mp of
        None \<Rightarrow> Inl NullDeref
      | Some (m, junk) \<Rightarrow>
          Inr (m, s\<lparr>amsgs := (amsgs s)(m \<mapsto> junk\<lparr>m_active := True, m_done := False,
                                                  m_dataptr := dataptr\<rparr>),
                    trace := trace s @ [EvCallAsync phoneid method a1 a2 m]\<rparr>))"

text \<open>
  \<^verbatim>\<open>
  static void reply_received(void *private, int retval, ipc_call_t *data)
  {
          amsg_t *msg = (amsg_t *) private;

          msg->retval = retval;

          futex_down(&async_futex);
          if (msg->dataptr)
                  *msg->dataptr = *data;

          write_barrier();
          if (msg->has_timeout)
                  list_remove(&msg->link);
          msg->done = 1;
          if (! msg->active) {
                  msg->active = 1;
                  psthread_add_ready(msg->ptid);
          }
          futex_up(&async_futex);
  }
  \<close>
  One definition for each statement that writes, in program order, so that the states
  between the statements can be looked at. \<^verbatim>\<open>int retval\<close> is converted to the unsigned
  \<open>ipcarg_t\<close> by sign extension. \<open>d\<close> is the \<^verbatim>\<open>data\<close> pointer's target, \<open>None\<close> for a
  null pointer. \<^verbatim>\<open>list_remove\<close> of a node that is in no list follows the uninitialised
  links of the node: \<open>BadPointer\<close>.
\<close>

definition rr_set_retval :: "ptr \<Rightarrow> 32 word \<Rightarrow> async_state \<Rightarrow> fault + async_state" where
  "rr_set_retval p r s =
     (case amsgs s p of
        None \<Rightarrow> Inl BadPointer
      | Some msg \<Rightarrow> Inr (s\<lparr>amsgs := (amsgs s)(p \<mapsto> msg\<lparr>m_retval := scast r\<rparr>)\<rparr>))"

definition rr_copy_data :: "ptr \<Rightarrow> ipc_call_t option \<Rightarrow> async_state \<Rightarrow> fault + async_state" where
  "rr_copy_data p d s =
     (case amsgs s p of
        None \<Rightarrow> Inl BadPointer
      | Some msg \<Rightarrow>
          (case m_dataptr msg of
             None \<Rightarrow> Inr s
           | Some b \<Rightarrow>
               (case d of
                  None \<Rightarrow> Inl NullDeref
                | Some v \<Rightarrow>
                    if bufs s b = None then Inl BadPointer
                    else Inr (s\<lparr>bufs := (bufs s)(b \<mapsto> v)\<rparr>))))"

definition rr_unlink :: "ptr \<Rightarrow> async_state \<Rightarrow> fault + async_state" where
  "rr_unlink p s =
     (case amsgs s p of
        None \<Rightarrow> Inl BadPointer
      | Some msg \<Rightarrow>
          if m_has_timeout msg
          then (if p \<in> set (timeout_list s)
                then Inr (s\<lparr>timeout_list := remove1 p (timeout_list s)\<rparr>)
                else Inl BadPointer)
          else Inr s)"

definition rr_set_done :: "ptr \<Rightarrow> async_state \<Rightarrow> fault + async_state" where
  "rr_set_done p s =
     (case amsgs s p of
        None \<Rightarrow> Inl BadPointer
      | Some msg \<Rightarrow> Inr (s\<lparr>amsgs := (amsgs s)(p \<mapsto> msg\<lparr>m_done := True\<rparr>)\<rparr>))"

definition rr_wake :: "ptr \<Rightarrow> async_state \<Rightarrow> fault + async_state" where
  "rr_wake p s =
     (case amsgs s p of
        None \<Rightarrow> Inl BadPointer
      | Some msg \<Rightarrow>
          if \<not> m_active msg
          then Inr (s\<lparr>amsgs := (amsgs s)(p \<mapsto> msg\<lparr>m_active := True\<rparr>),
                      trace := trace s @ [EvAddReady (m_ptid msg)]\<rparr>)
          else Inr s)"

text \<open>
  Statements in sequence: \<open>exec\<close> runs them and stops at the first fault;
  \<open>exec_states\<close> lists the states reached after each statement that ran.
\<close>

fun exec :: "('s \<Rightarrow> fault + 's) list \<Rightarrow> 's \<Rightarrow> fault + 's" where
  "exec [] s = Inr s"
| "exec (f # fs) s = (case f s of Inl e \<Rightarrow> Inl e | Inr s' \<Rightarrow> exec fs s')"

fun exec_states :: "('s \<Rightarrow> fault + 's) list \<Rightarrow> 's \<Rightarrow> 's list" where
  "exec_states [] s = []"
| "exec_states (f # fs) s = (case f s of Inl e \<Rightarrow> [] | Inr s' \<Rightarrow> s' # exec_states fs s')"

definition reply_received_stmts ::
  "ptr \<Rightarrow> 32 word \<Rightarrow> ipc_call_t option \<Rightarrow> (async_state \<Rightarrow> fault + async_state) list" where
  "reply_received_stmts p r d =
     [rr_set_retval p r, rr_copy_data p d, rr_unlink p, rr_set_done p, rr_wake p]"

definition reply_received ::
  "ptr \<Rightarrow> 32 word \<Rightarrow> ipc_call_t option \<Rightarrow> async_state \<Rightarrow> fault + async_state" where
  "reply_received p r d s = exec (reply_received_stmts p r d) s"

text \<open>
  The code at the label \<^verbatim>\<open>done:\<close> of both wait functions:
  \<^verbatim>\<open>
  done:
          if (retval)
                  *retval = msg->retval;
          free(msg);
  \<close>
  \<open>want\<close> says that the \<^verbatim>\<open>retval\<close> pointer is not null; the value stored through it is
  returned beside the state.
\<close>

definition wait_done :: "ptr \<Rightarrow> bool \<Rightarrow> async_state \<Rightarrow> fault + (ipcarg_t option \<times> async_state)" where
  "wait_done amsgid want s =
     (case amsgs s amsgid of
        None \<Rightarrow> Inl BadPointer
      | Some msg \<Rightarrow>
          Inr (if want then Some (m_retval msg) else None,
               s\<lparr>amsgs := (amsgs s)(amsgid := None),
                 trace := trace s @ [EvFreeAmsg amsgid]\<rparr>))"

text \<open>
  \<^verbatim>\<open>
  void async_wait_for(aid_t amsgid, ipcarg_t *retval)
  {
          amsg_t *msg = (amsg_t *) amsgid;

          futex_down(&async_futex);
          if (msg->done) {
                  futex_up(&async_futex);
                  goto done;
          }
          msg->ptid = psthread_get_id();
          msg->active = 0;
          msg->has_timeout = 0;
          psthread_schedule_next_adv(PS_TO_MANAGER);
  done:
          if (retval)
                  *retval = msg->retval;
          free(msg);
  }
  \<close>
  \<open>self\<close> is \<^verbatim>\<open>psthread_get_id()\<close>; \<open>sched\<close> is what happens to the state while the
  fibril is suspended in \<^verbatim>\<open>psthread_schedule_next_adv\<close>.
\<close>

definition async_wait_for ::
  "ptr \<Rightarrow> bool \<Rightarrow> pstid_t \<Rightarrow> (async_state \<Rightarrow> fault + async_state) \<Rightarrow> async_state \<Rightarrow>
     fault + (ipcarg_t option \<times> async_state)" where
  "async_wait_for amsgid want self sched s =
     (case amsgs s amsgid of
        None \<Rightarrow> Inl BadPointer
      | Some msg \<Rightarrow>
          if m_done msg then wait_done amsgid want s
          else (case sched (s\<lparr>amsgs := (amsgs s)(amsgid \<mapsto>
                                 msg\<lparr>m_ptid := self, m_active := False,
                                     m_has_timeout := False\<rparr>)\<rparr>) of
                  Inl e \<Rightarrow> Inl e
                | Inr s1 \<Rightarrow> wait_done amsgid want s1))"

text \<open>
  \<^verbatim>\<open>
  static void insert_timeout(amsg_t *msg)
  {
          tmp = timeout_list.next;
          while (tmp != &timeout_list) {
                  cur = list_get_instance(tmp, amsg_t, link);
                  if (tv_gt(&cur->expires, &msg->expires))
                          break;
                  tmp = tmp->next;
          }
          list_append(&msg->link, tmp);
  }
  \<close>
  \<^verbatim>\<open>list_append(link, tmp)\<close> links the node in right before \<open>tmp\<close>.
\<close>

fun insert_timeout_walk ::
  "(ptr \<rightharpoonup> amsg_t) \<Rightarrow> timeval \<Rightarrow> ptr \<Rightarrow> ptr list \<Rightarrow> fault + ptr list" where
  "insert_timeout_walk h e p [] = Inr [p]"
| "insert_timeout_walk h e p (tmp # rest) =
     (case h tmp of
        None \<Rightarrow> Inl BadPointer
      | Some cur \<Rightarrow>
          if tv_gt (m_expires cur) e then Inr (p # tmp # rest)
          else (case insert_timeout_walk h e p rest of
                  Inl x \<Rightarrow> Inl x
                | Inr l \<Rightarrow> Inr (tmp # l)))"

definition insert_timeout :: "ptr \<Rightarrow> async_state \<Rightarrow> fault + async_state" where
  "insert_timeout p s =
     (case amsgs s p of
        None \<Rightarrow> Inl BadPointer
      | Some msg \<Rightarrow>
          (case insert_timeout_walk (amsgs s) (m_expires msg) p (timeout_list s) of
             Inl e \<Rightarrow> Inl e
           | Inr l \<Rightarrow> Inr (s\<lparr>timeout_list := l\<rparr>)))"

text \<open>
  \<^verbatim>\<open>
  int async_wait_timeout(aid_t amsgid, ipcarg_t *retval, suseconds_t timeout)
  {
          amsg_t *msg = (amsg_t *) amsgid;

          futex_down(&async_futex);
          if (msg->done) {
                  futex_up(&async_futex);
                  goto done;
          }
          msg->ptid = psthread_get_id();
          msg->active = 0;
          msg->has_timeout = 1;

          gettimeofday(&msg->expires, NULL);
          tv_add(&msg->expires, timeout);
          insert_timeout(msg);

          psthread_schedule_next_adv(PS_TO_MANAGER);

          if (!msg->done)
                  return ETIMEOUT;
  done:
          if (retval)
                  *retval = msg->retval;
          free(msg);
          return 0;
  }
  \<close>
  \<open>now\<close> is what \<^verbatim>\<open>gettimeofday\<close> stores.
\<close>

definition async_wait_timeout ::
  "ptr \<Rightarrow> bool \<Rightarrow> int \<Rightarrow> pstid_t \<Rightarrow> timeval \<Rightarrow> (async_state \<Rightarrow> fault + async_state) \<Rightarrow>
     async_state \<Rightarrow> fault + (errno \<times> ipcarg_t option \<times> async_state)" where
  "async_wait_timeout amsgid want timeout self now sched s =
     (case amsgs s amsgid of
        None \<Rightarrow> Inl BadPointer
      | Some msg \<Rightarrow>
          if m_done msg
          then (case wait_done amsgid want s of
                  Inl e \<Rightarrow> Inl e
                | Inr (out, s') \<Rightarrow> Inr (EOK, out, s'))
          else (case insert_timeout amsgid
                       (s\<lparr>amsgs := (amsgs s)(amsgid \<mapsto>
                            msg\<lparr>m_ptid := self, m_active := False, m_has_timeout := True,
                                m_expires := tv_add now timeout\<rparr>)\<rparr>) of
                  Inl e \<Rightarrow> Inl e
                | Inr s1 \<Rightarrow>
                    (case sched s1 of
                       Inl e \<Rightarrow> Inl e
                     | Inr s2 \<Rightarrow>
                         (case amsgs s2 amsgid of
                            None \<Rightarrow> Inl BadPointer
                          | Some msg2 \<Rightarrow>
                              if \<not> m_done msg2 then Inr (ETIMEOUT, None, s2)
                              else (case wait_done amsgid want s2 of
                                      Inl e \<Rightarrow> Inl e
                                    | Inr (out, s') \<Rightarrow> Inr (EOK, out, s'))))))"

section \<open>UDP associations of \<^verbatim>\<open>assoc.c\<close>\<close>

subsection \<open>Data\<close>

text \<open>
  Addresses, endpoints and endpoint pairs (\<^verbatim>\<open>inet/addr.h\<close> and \<^verbatim>\<open>inet/endpoint.h\<close> are
  not at hand): an address has the field \<^verbatim>\<open>version\<close>, an enumeration value, and its
  bytes; an endpoint has \<^verbatim>\<open>addr\<close> and \<^verbatim>\<open>port\<close>; a pair has \<^verbatim>\<open>local_link\<close>, \<^verbatim>\<open>local\<close>
  and \<^verbatim>\<open>remote\<close>.
\<close>

record inet_addr_t =
  version :: nat
  addr_bytes :: "128 word"

record inet_ep_t =
  addr :: inet_addr_t
  port :: "16 word"

record inet_ep2_t =
  local_link :: nat
  local_ep :: inet_ep_t
  remote_ep :: inet_ep_t

text \<open>
  What \<^verbatim>\<open>assoc.c\<close> uses of the inet library and of the other files of the UDP server,
  none of them at hand, taken as parameters: the tests \<^verbatim>\<open>inet_addr_is_any\<close> and
  \<^verbatim>\<open>inet_addr_compare\<close>, the constant \<^verbatim>\<open>inet_port_any\<close>, \<^verbatim>\<open>udp_pdu_encode\<close> (its
  return code and the PDU it allocates) and \<^verbatim>\<open>udp_transmit_pdu\<close> (its return code).
  Messages and PDUs are known by their addresses only.
\<close>

record externals =
  inet_addr_is_any :: "inet_addr_t \<Rightarrow> bool"
  inet_addr_compare :: "inet_addr_t \<Rightarrow> inet_addr_t \<Rightarrow> bool"
  inet_port_any :: "16 word"
  udp_pdu_encode :: "inet_ep2_t \<Rightarrow> ptr \<Rightarrow> errno \<times> ptr"
  udp_transmit_pdu :: "ptr \<Rightarrow> errno"

text \<open>
  \<^verbatim>\<open>udp_rcv_queue_entry_t\<close> and \<^verbatim>\<open>udp_assoc_t\<close> (\<^verbatim>\<open>udp_type.h\<close> is not at hand; the
  fields are the ones \<^verbatim>\<open>assoc.c\<close> uses). The lock and the condition variable have no
  field: the functions are modelled as they run with the lock held, and a wait on the
  condition variable is a point where other fibrils change the state. \<open>cb\<close> is a pointer
  to a table of callbacks: the record holds its identity.
\<close>

record udp_rcv_queue_entry_t =
  rqe_epp :: inet_ep2_t
  rqe_msg :: ptr

record udp_assoc_t =
  ident :: inet_ep2_t
  rcv_queue :: "udp_rcv_queue_entry_t list"
  refcnt :: int
  deleted :: bool
  reset :: bool
  cb :: nat
  cb_arg :: nat

text \<open>
  The trace of the UDP server: changes of a reference count, \<^verbatim>\<open>free\<close> of an
  association, \<^verbatim>\<open>udp_msg_delete\<close>, the call of \<^verbatim>\<open>cb->recv_msg\<close>, \<^verbatim>\<open>udp_pdu_encode\<close>,
  \<^verbatim>\<open>udp_transmit_pdu\<close>, \<^verbatim>\<open>udp_pdu_delete\<close>, and a broadcast on the condition variable
  of an association.
\<close>

datatype udp_event =
    UAddref ptr
  | UDelref ptr
  | UFreeAssoc ptr
  | UMsgDelete ptr
  | URecvMsg nat nat inet_ep2_t ptr
  | UPduEncode inet_ep2_t ptr
  | UTransmit ptr
  | UPduDelete ptr
  | UBroadcast ptr

record udp_state =
  assocs :: "ptr \<rightharpoonup> udp_assoc_t"
  assoc_list :: "ptr list"
  utrace :: "udp_event list"

subsection \<open>Reference counting\<close>

text \<open>
  \<^verbatim>\<open>
  void udp_assoc_addref(udp_assoc_t *assoc)
  {
          atomic_inc(&assoc->refcnt);
  }
  static void udp_assoc_free(udp_assoc_t *assoc)
  {
          while (!list_empty(&assoc->rcv_queue)) {
                  link_t *link = list_first(&assoc->rcv_queue);
                  udp_rcv_queue_entry_t *rqe = list_get_instance(link,
                      udp_rcv_queue_entry_t, link);
                  list_remove(link);

                  udp_msg_delete(rqe->msg);
                  free(rqe);
          }
          free(assoc);
  }
  void udp_assoc_delref(udp_assoc_t *assoc)
  {
          if (atomic_predec(&assoc->refcnt) == 0)
                  udp_assoc_free(assoc);
  }
  \<close>
\<close>

definition udp_assoc_addref :: "ptr \<Rightarrow> udp_state \<Rightarrow> fault + udp_state" where
  "udp_assoc_addref a s =
     (case assocs s a of
        None \<Rightarrow> Inl BadPointer
      | Some A \<Rightarrow>
          Inr (s\<lparr>assocs := (assocs s)(a \<mapsto> A\<lparr>refcnt := refcnt A + 1\<rparr>),
                 utrace := utrace s @ [UAddref a]\<rparr>))"

fun udp_assoc_free_queue :: "udp_rcv_queue_entry_t list \<Rightarrow> udp_event list" where
  "udp_assoc_free_queue [] = []"
| "udp_assoc_free_queue (rqe # rest) = UMsgDelete (rqe_msg rqe) # udp_assoc_free_queue rest"

definition udp_assoc_free :: "ptr \<Rightarrow> udp_state \<Rightarrow> fault + udp_state" where
  "udp_assoc_free a s =
     (case assocs s a of
        None \<Rightarrow> Inl BadPointer
      | Some A \<Rightarrow>
          Inr (s\<lparr>assocs := (assocs s)(a := None),
                 utrace := utrace s @ udp_assoc_free_queue (rcv_queue A) @ [UFreeAssoc a]\<rparr>))"

definition udp_assoc_delref :: "ptr \<Rightarrow> udp_state \<Rightarrow> fault + udp_state" where
  "udp_assoc_delref a s =
     (case assocs s a of
        None \<Rightarrow> Inl BadPointer
      | Some A \<Rightarrow>
          (let s1 = s\<lparr>assocs := (assocs s)(a \<mapsto> A\<lparr>refcnt := refcnt A - 1\<rparr>),
                      utrace := utrace s @ [UDelref a]\<rparr>
           in if refcnt A - 1 = 0 then udp_assoc_free a s1 else Inr s1))"

subsection \<open>Sending\<close>

text \<open>
  \<^verbatim>\<open>
  int udp_assoc_send(udp_assoc_t *assoc, inet_ep_t *remote, udp_msg_t *msg)
  {
          udp_pdu_t *pdu;
          inet_ep2_t epp;
          int rc;

          /* @a remote can be used to override the remote endpoint */
          epp = assoc->ident;
          if (remote != NULL)
                  epp.remote = *remote;

          if ((inet_addr_is_any(&epp.remote.addr)) ||
              (epp.remote.port == inet_port_any))
                  return EINVAL;

          if (epp.remote.addr.version != epp.local.addr.version)
                  return EINVAL;

          rc = udp_pdu_encode(&epp, msg, &pdu);
          if (rc != EOK)
                  return ENOMEM;

          rc = udp_transmit_pdu(pdu);
          udp_pdu_delete(pdu);

          if (rc != EOK)
                  return EIO;

          return EOK;
  }
  \<close>
  \<open>send_epp\<close> is the local variable \<^verbatim>\<open>epp\<close> after the override.
\<close>

definition send_epp :: "udp_assoc_t \<Rightarrow> inet_ep_t option \<Rightarrow> inet_ep2_t" where
  "send_epp A remote =
     (case remote of None \<Rightarrow> ident A | Some r \<Rightarrow> (ident A)\<lparr>remote_ep := r\<rparr>)"

definition udp_assoc_send ::
  "externals \<Rightarrow> ptr \<Rightarrow> inet_ep_t option \<Rightarrow> ptr \<Rightarrow> udp_state \<Rightarrow> fault + (errno \<times> udp_state)" where
  "udp_assoc_send ext a remote msg s =
     (case assocs s a of
        None \<Rightarrow> Inl BadPointer
      | Some A \<Rightarrow>
          (let epp = send_epp A remote in
           if inet_addr_is_any ext (addr (remote_ep epp)) \<or> port (remote_ep epp) = inet_port_any ext
           then Inr (EINVAL, s)
           else if version (addr (remote_ep epp)) \<noteq> version (addr (local_ep epp))
           then Inr (EINVAL, s)
           else (case udp_pdu_encode ext epp msg of
                   (rc, pdu) \<Rightarrow>
                     if rc \<noteq> EOK
                     then Inr (ENOMEM, s\<lparr>utrace := utrace s @ [UPduEncode epp msg]\<rparr>)
                     else (let s1 = s\<lparr>utrace := utrace s @
                                       [UPduEncode epp msg, UTransmit pdu, UPduDelete pdu]\<rparr>
                           in if udp_transmit_pdu ext pdu \<noteq> EOK then Inr (EIO, s1)
                              else Inr (EOK, s1)))))"

subsection \<open>Receiving and reset\<close>

text \<open>
  \<^verbatim>\<open>
  int udp_assoc_recv(udp_assoc_t *assoc, udp_msg_t **msg, inet_ep_t *remote)
  {
          fibril_mutex_lock(&assoc->lock);
          while (list_empty(&assoc->rcv_queue) && !assoc->reset) {
                  fibril_condvar_wait(&assoc->rcv_queue_cv, &assoc->lock);
          }

          if (assoc->reset) {
                  fibril_mutex_unlock(&assoc->lock);
                  return ENXIO;
          }

          link = list_first(&assoc->rcv_queue);
          rqe = list_get_instance(link, udp_rcv_queue_entry_t, link);
          list_remove(link);
          fibril_mutex_unlock(&assoc->lock);

          *msg = rqe->msg;
          *remote = rqe->epp.remote;
          free(rqe);

          return EOK;
  }
  \<close>
  The loop is \<open>udp_assoc_recv_wait\<close>. Each \<^verbatim>\<open>fibril_condvar_wait\<close> gives the lock away
  and returns after the other fibrils have changed the state: \<open>ws\<close> lists what they do
  during the first wait, the second wait, and so on. The loop may wait for ever; the
  result is \<open>None\<close> when the fibril is still waiting after the last change of the list.
\<close>

fun udp_assoc_recv_wait ::
  "ptr \<Rightarrow> (udp_state \<Rightarrow> fault + udp_state) list \<Rightarrow> udp_state \<Rightarrow> (fault + udp_state) option" where
  "udp_assoc_recv_wait a ws s =
     (case assocs s a of
        None \<Rightarrow> Some (Inl BadPointer)
      | Some A \<Rightarrow>
          if list_empty (rcv_queue A) \<and> \<not> reset A
          then (case ws of
                  [] \<Rightarrow> None
                | w # ws' \<Rightarrow>
                    (case w s of
                       Inl e \<Rightarrow> Some (Inl e)
                     | Inr s1 \<Rightarrow> udp_assoc_recv_wait a ws' s1))
          else Some (Inr s))"

declare udp_assoc_recv_wait.simps [simp del]

definition udp_assoc_recv ::
  "ptr \<Rightarrow> (udp_state \<Rightarrow> fault + udp_state) list \<Rightarrow> udp_state \<Rightarrow>
     (fault + (errno \<times> (ptr \<times> inet_ep_t) option \<times> udp_state)) option" where
  "udp_assoc_recv a ws s =
     (case udp_assoc_recv_wait a ws s of
        None \<Rightarrow> None
      | Some (Inl e) \<Rightarrow> Some (Inl e)
      | Some (Inr s1) \<Rightarrow>
          (case assocs s1 a of
             None \<Rightarrow> Some (Inl BadPointer)
           | Some A \<Rightarrow>
               if reset A then Some (Inr (ENXIO, None, s1))
               else (case rcv_queue A of
                       [] \<Rightarrow> Some (Inl BadPointer)
                     | rqe # rest \<Rightarrow>
                         Some (Inr (EOK, Some (rqe_msg rqe, remote_ep (rqe_epp rqe)),
                                    s1\<lparr>assocs := (assocs s1)(a \<mapsto> A\<lparr>rcv_queue := rest\<rparr>)\<rparr>)))))"

text \<open>
  \<^verbatim>\<open>
  void udp_assoc_reset(udp_assoc_t *assoc)
  {
          fibril_mutex_lock(&assoc->lock);
          assoc->reset = true;
          fibril_condvar_broadcast(&assoc->rcv_queue_cv);
          fibril_mutex_unlock(&assoc->lock);
  }
  \<close>
\<close>

definition udp_assoc_reset :: "ptr \<Rightarrow> udp_state \<Rightarrow> fault + udp_state" where
  "udp_assoc_reset a s =
     (case assocs s a of
        None \<Rightarrow> Inl BadPointer
      | Some A \<Rightarrow>
          Inr (s\<lparr>assocs := (assocs s)(a \<mapsto> A\<lparr>reset := True\<rparr>),
                 utrace := utrace s @ [UBroadcast a]\<rparr>))"

subsection \<open>Matching and delivery\<close>

text \<open>
  \<^verbatim>\<open>
  static bool udp_ep_match(inet_ep_t *ep, inet_ep_t *patt)
  {
          if ((!inet_addr_is_any(&patt->addr)) &&
              (!inet_addr_compare(&patt->addr, &ep->addr)))
                  return false;

          if ((patt->port != inet_port_any) &&
              (patt->port != ep->port))
                  return false;

          return true;
  }
  static bool udp_ep2_match(inet_ep2_t *epp, inet_ep2_t *pattern)
  {
          if (!udp_ep_match(&epp->local, &pattern->local))
                  return false;

          if (!udp_ep_match(&epp->remote, &pattern->remote))
                  return false;

          return true;
  }
  \<close>
\<close>

definition udp_ep_match :: "externals \<Rightarrow> inet_ep_t \<Rightarrow> inet_ep_t \<Rightarrow> bool" where
  "udp_ep_match ext ep patt =
     (if \<not> inet_addr_is_any ext (addr patt) \<and> \<not> inet_addr_compare ext (addr patt) (addr ep)
      then False
      else if port patt \<noteq> inet_port_any ext \<and> port patt \<noteq> port ep then False
      else True)"

definition udp_ep2_match :: "externals \<Rightarrow> inet_ep2_t \<Rightarrow> inet_ep2_t \<Rightarrow> bool" where
  "udp_ep2_match ext epp pattern =
     (if \<not> udp_ep_match ext (local_ep epp) (local_ep pattern) then False
      else if \<not> udp_ep_match ext (remote_ep epp) (remote_ep pattern) then False
      else True)"

text \<open>
  \<^verbatim>\<open>
  static udp_assoc_t *udp_assoc_find_ref(inet_ep2_t *epp)
  {
          fibril_mutex_lock(&assoc_list_lock);
          list_foreach(assoc_list, link, udp_assoc_t, assoc) {
                  inet_ep2_t *aepp = &assoc->ident;
                  /* Skip unbound associations */
                  if (aepp->local.port == inet_port_any)
                          continue;

                  if (udp_ep2_match(epp, aepp)) {
                          udp_assoc_addref(assoc);
                          fibril_mutex_unlock(&assoc_list_lock);
                          return assoc;
                  }
          }
          fibril_mutex_unlock(&assoc_list_lock);
          return NULL;
  }
  \<close>
\<close>

fun udp_assoc_find_walk ::
  "externals \<Rightarrow> (ptr \<rightharpoonup> udp_assoc_t) \<Rightarrow> inet_ep2_t \<Rightarrow> ptr list \<Rightarrow> fault + ptr option" where
  "udp_assoc_find_walk ext h epp [] = Inr None"
| "udp_assoc_find_walk ext h epp (a # rest) =
     (case h a of
        None \<Rightarrow> Inl BadPointer
      | Some A \<Rightarrow>
          if port (local_ep (ident A)) = inet_port_any ext
          then udp_assoc_find_walk ext h epp rest
          else if udp_ep2_match ext epp (ident A) then Inr (Some a)
          else udp_assoc_find_walk ext h epp rest)"

definition udp_assoc_find_ref ::
  "externals \<Rightarrow> inet_ep2_t \<Rightarrow> udp_state \<Rightarrow> fault + (ptr option \<times> udp_state)" where
  "udp_assoc_find_ref ext epp s =
     (case udp_assoc_find_walk ext (assocs s) epp (assoc_list s) of
        Inl e \<Rightarrow> Inl e
      | Inr None \<Rightarrow> Inr (None, s)
      | Inr (Some a) \<Rightarrow>
          (case udp_assoc_addref a s of
             Inl e \<Rightarrow> Inl e
           | Inr s1 \<Rightarrow> Inr (Some a, s1)))"

text \<open>
  \<^verbatim>\<open>
  void udp_assoc_received(inet_ep2_t *repp, udp_msg_t *msg)
  {
          assoc = udp_assoc_find_ref(repp);
          if (assoc == NULL) {
                  udp_msg_delete(msg);
                  return;
          }

          if (0) {
                  rc = udp_assoc_queue_msg(assoc, repp, msg);
                  ...
          }

          assoc->cb->recv_msg(assoc->cb_arg, repp, msg);
          udp_assoc_delref(assoc);
  }
  \<close>
  \<open>run\<close> interprets the callback tables: \<open>run c arg repp msg\<close> is what the function
  \<^verbatim>\<open>recv_msg\<close> of the table \<open>c\<close> does to the state.
\<close>

definition udp_assoc_received ::
  "externals \<Rightarrow> (nat \<Rightarrow> nat \<Rightarrow> inet_ep2_t \<Rightarrow> ptr \<Rightarrow> udp_state \<Rightarrow> udp_state) \<Rightarrow>
     inet_ep2_t \<Rightarrow> ptr \<Rightarrow> udp_state \<Rightarrow> fault + udp_state" where
  "udp_assoc_received ext run repp msg s =
     (case udp_assoc_find_ref ext repp s of
        Inl e \<Rightarrow> Inl e
      | Inr (None, s1) \<Rightarrow> Inr (s1\<lparr>utrace := utrace s1 @ [UMsgDelete msg]\<rparr>)
      | Inr (Some a, s1) \<Rightarrow>
          (case assocs s1 a of
             None \<Rightarrow> Inl BadPointer
           | Some A \<Rightarrow>
               udp_assoc_delref a
                 (run (cb A) (cb_arg A) repp msg
                    (s1\<lparr>utrace := utrace s1 @ [URecvMsg (cb A) (cb_arg A) repp msg]\<rparr>))))"

subsection \<open>Runs of one connection\<close>

text \<open>
  The manager routes a list of incoming calls, one \<^verbatim>\<open>route_call\<close> after the other (each
  with the result of its \<^verbatim>\<open>malloc\<close>). Beside the state, \<open>manager_routes pc\<close> returns
  the calls that \<open>route_call\<close> put on the queue of the connection \<open>pc\<close>: those for which
  it returned 1 and the connection it had found was \<open>pc\<close>.
\<close>

fun manager_routes ::
  "ptr \<Rightarrow> (ipc_callid_t \<times> ipc_call_t \<times> ptr option) list \<Rightarrow> async_state \<Rightarrow>
     fault + ((ipc_callid_t \<times> ipc_call_t) list \<times> async_state)" where
  "manager_routes pc [] s = Inr ([], s)"
| "manager_routes pc ((cid, c, mp) # rs) s =
     (case route_call cid c mp s of
        Inl e \<Rightarrow> Inl e
      | Inr (b, s1) \<Rightarrow>
          (case manager_routes pc rs s1 of
             Inl e \<Rightarrow> Inl e
           | Inr (log, s2) \<Rightarrow>
               Inr ((if b \<and> hash_table_find s (in_phone_hash c) = Some pc then [(cid, c)] else [])
                      @ log, s2)))"

text \<open>
  What happens while the fibril of \<open>pc\<close> is suspended in \<open>async_get_call\<close>: the manager
  routes the calls \<open>rs\<close>. \<open>routed_while_suspended\<close> is the list of calls this puts on
  the queue of \<open>pc\<close>; the calls are routed only when \<open>async_get_call\<close> finds the queue
  empty and gives up the processor.
\<close>

definition routes_sched ::
  "ptr \<Rightarrow> (ipc_callid_t \<times> ipc_call_t \<times> ptr option) list \<Rightarrow> async_state \<Rightarrow> fault + async_state" where
  "routes_sched pc rs t = (case manager_routes pc rs t of Inl e \<Rightarrow> Inl e | Inr (l, t') \<Rightarrow> Inr t')"

definition routed_while_suspended ::
  "ptr \<Rightarrow> (ipc_callid_t \<times> ipc_call_t \<times> ptr option) list \<Rightarrow> async_state \<Rightarrow>
     (ipc_callid_t \<times> ipc_call_t) list" where
  "routed_while_suspended pc rs s =
     (case conns s pc of
        None \<Rightarrow> []
      | Some conn \<Rightarrow>
          if list_empty (msg_queue conn)
          then (case manager_routes pc rs (s\<lparr>conns := (conns s)(pc \<mapsto> conn\<lparr>conn_active := False\<rparr>)\<rparr>) of
                  Inl e \<Rightarrow> []
                | Inr (l, t) \<Rightarrow> l)
          else [])"

text \<open>
  A run of the connection \<open>pc\<close> is a list of actions: the manager routes an incoming
  call, or the fibril of the connection calls \<open>async_get_call\<close> (and the manager routes
  the given calls if the fibril has to wait). \<open>run_actions\<close> returns the calls that
  \<open>async_get_call\<close> returned, in the order of the returns, the calls that \<open>route_call\<close>
  put on the queue of \<open>pc\<close>, in the order of the enqueues, and the final state.
\<close>

datatype action =
    Route ipc_callid_t ipc_call_t "ptr option"
  | GetCall "(ipc_callid_t \<times> ipc_call_t \<times> ptr option) list"

fun run_actions ::
  "ptr \<Rightarrow> action list \<Rightarrow> async_state \<Rightarrow>
     fault + ((ipc_callid_t \<times> ipc_call_t) list \<times> (ipc_callid_t \<times> ipc_call_t) list \<times> async_state)" where
  "run_actions pc [] s = Inr ([], [], s)"
| "run_actions pc (Route cid c mp # acts) s =
     (case manager_routes pc [(cid, c, mp)] s of
        Inl e \<Rightarrow> Inl e
      | Inr (l, s1) \<Rightarrow>
          (case run_actions pc acts s1 of
             Inl e \<Rightarrow> Inl e
           | Inr (got, put, s2) \<Rightarrow> Inr (got, l @ put, s2)))"
| "run_actions pc (GetCall rs # acts) s =
     (case async_get_call pc (routes_sched pc rs) s of
        Inl e \<Rightarrow> Inl e
      | Inr (x, s1) \<Rightarrow>
          (case run_actions pc acts s1 of
             Inl e \<Rightarrow> Inl e
           | Inr (got, put, s2) \<Rightarrow> Inr (x # got, routed_while_suspended pc rs s @ put, s2)))"

text \<open>The calls waiting in the FIFO of a connection, head first.\<close>

definition fifo :: "async_state \<Rightarrow> ptr \<Rightarrow> (ipc_callid_t \<times> ipc_call_t) list" where
  "fifo s pc = (case conns s pc of None \<Rightarrow> []
                | Some conn \<Rightarrow> map (\<lambda>(m, msg). (callid msg, call msg)) (msg_queue conn))"

text \<open>What the final loop of \<open>connection_thread\<close> does for a queue of messages.\<close>

definition hangup_events :: "(ptr \<times> msg_t) list \<Rightarrow> event list" where
  "hangup_events q = concat (map (\<lambda>(m, msg). [EvAnswer (callid msg) EHANGUP, EvFreeMsg m]) q)"

text \<open>\<open>a\<close> occurs in the trace before the first occurrence of \<open>b\<close>.\<close>

definition occurs_before :: "'a \<Rightarrow> 'a \<Rightarrow> 'a list \<Rightarrow> bool" where
  "occurs_before a b tr = (b \<in> set tr \<and> a \<in> set (takeWhile (\<lambda>e. e \<noteq> b) tr))"

subsection \<open>Example states\<close>

text \<open>
  One connection with the phone hash 16 at the address 1, linked into chain 1 of the
  hash table, served by the fibril 5; in \<open>example_state_queued\<close> one call (call id 7,
  node at the address 10) waits in its FIFO. \<open>idle_handler\<close> is a connection handler
  that returns at once.
\<close>

definition example_call :: ipc_call_t where
  "example_call = \<lparr>in_phone_hash = 16, ipc_method = 1024, ipc_arg1 = 0, ipc_arg2 = 0, ipc_arg3 = 0\<rparr>"

definition example_conn :: connection_t where
  "example_conn =
     \<lparr>conn_in_phone_hash = 16, msg_queue = [], conn_ptid = 5, conn_active = True,
      conn_callid = 3, conn_call = example_call, cthread = 0\<rparr>"

definition example_state :: async_state where
  "example_state =
     \<lparr>conn_hash_table = (\<lambda>_. [])(1 := [1]), conns = [1 \<mapsto> example_conn],
      amsgs = Map.empty, bufs = Map.empty, timeout_list = [], trace = []\<rparr>"

definition example_state_queued :: async_state where
  "example_state_queued =
     example_state\<lparr>conns := [1 \<mapsto> example_conn\<lparr>msg_queue := [(10, \<lparr>callid = 7, call = example_call\<rparr>)]\<rparr>]\<rparr>"

definition idle_handler :: "nat \<Rightarrow> ipc_callid_t \<Rightarrow> ipc_call_t \<Rightarrow> async_state \<Rightarrow> async_state" where
  "idle_handler h cid c s = s"

text \<open>
  An outstanding message at the address 20, as \<open>async_send_2\<close> leaves it, with the
  answer buffer at the address 30; an answer payload; a time of day; and a scheduler
  that resumes the fibril with nothing changed.
\<close>

definition example_amsg :: amsg_t where
  "example_amsg =
     \<lparr>m_ptid = 0, m_active = True, m_done = False, m_dataptr = Some 30,
      m_expires = \<lparr>tv_sec = 0, tv_usec = 0\<rparr>, m_has_timeout = False, m_retval = 0\<rparr>"

definition example_state_sent :: async_state where
  "example_state_sent =
     example_state\<lparr>amsgs := [20 \<mapsto> example_amsg], bufs := [30 \<mapsto> example_call]\<rparr>"

definition example_answer :: ipc_call_t where
  "example_answer = example_call\<lparr>ipc_arg1 := 48879\<rparr>"

definition example_now :: timeval where
  "example_now = \<lparr>tv_sec = 100, tv_usec = 250000\<rparr>"

definition resumed_unchanged :: "async_state \<Rightarrow> fault + async_state" where
  "resumed_unchanged s = Inr s"

subsection \<open>States of a wait\<close>

text \<open>
  \<open>suspended_timeout\<close>: the state in which \<open>async_wait_timeout\<close> calls
  \<open>insert_timeout\<close>, after it has recorded the waiting fibril and the deadline in the
  message. \<open>freed_amsg\<close>: the state after the message was freed.
\<close>

definition suspended_timeout ::
  "ptr \<Rightarrow> int \<Rightarrow> pstid_t \<Rightarrow> timeval \<Rightarrow> amsg_t \<Rightarrow> async_state \<Rightarrow> async_state" where
  "suspended_timeout p t self now msg s =
     s\<lparr>amsgs := (amsgs s)(p \<mapsto> msg\<lparr>m_ptid := self, m_active := False, m_has_timeout := True,
                                     m_expires := tv_add now t\<rparr>)\<rparr>"

definition freed_amsg :: "ptr \<Rightarrow> async_state \<Rightarrow> async_state" where
  "freed_amsg p s = s\<lparr>amsgs := (amsgs s)(p := None), trace := trace s @ [EvFreeAmsg p]\<rparr>"

text \<open>
  What a reader of the message \<open>p\<close> sees in a state: \<open>is_done\<close>, the flag
  \<^verbatim>\<open>done\<close>; \<open>retval_in_place\<close>, the return value \<open>r\<close> of the reply in \<^verbatim>\<open>retval\<close>
  and, when \<^verbatim>\<open>dataptr\<close> is not null, the answer payload \<open>d\<close> in the buffer it points
  to. \<open>retval_published\<close>: whoever sees \<^verbatim>\<open>done\<close> set sees both in place.
\<close>

definition retval_in_place :: "ptr \<Rightarrow> 32 word \<Rightarrow> ipc_call_t option \<Rightarrow> async_state \<Rightarrow> bool" where
  "retval_in_place p r d s =
     (case amsgs s p of
        None \<Rightarrow> False
      | Some m \<Rightarrow>
          m_retval m = scast r \<and>
          (case m_dataptr m of None \<Rightarrow> True | Some b \<Rightarrow> d \<noteq> None \<and> bufs s b = d))"

definition is_done :: "ptr \<Rightarrow> async_state \<Rightarrow> bool" where
  "is_done p s = (case amsgs s p of None \<Rightarrow> False | Some m \<Rightarrow> m_done m)"

definition retval_published :: "ptr \<Rightarrow> 32 word \<Rightarrow> ipc_call_t option \<Rightarrow> async_state \<Rightarrow> bool" where
  "retval_published p r d s = (is_done p s \<longrightarrow> retval_in_place p r d s)"

subsection \<open>Example associations\<close>

text \<open>
  An inet library in which an address is ANY when its version or its bytes are 0,
  addresses compare equal when they are the same, and the port ANY is 0; an encoder and
  a transport that succeed. One association at the address 1, bound to 10.0.0.1 port 53
  with the remote endpoint left open, held by its user and by the association list, and
  a datagram for it from 8.8.8.8 port 4000.
\<close>

definition example_ext :: externals where
  "example_ext =
     \<lparr>inet_addr_is_any = (\<lambda>a. version a = 0 \<or> addr_bytes a = 0),
      inet_addr_compare = (\<lambda>a b. a = b),
      inet_port_any = 0,
      udp_pdu_encode = (\<lambda>epp msg. (EOK, 70)),
      udp_transmit_pdu = (\<lambda>pdu. EOK)\<rparr>"

definition ep4 :: "128 word \<Rightarrow> 16 word \<Rightarrow> inet_ep_t" where
  "ep4 a p = \<lparr>addr = \<lparr>version = 1, addr_bytes = a\<rparr>, port = p\<rparr>"

definition ep6 :: "128 word \<Rightarrow> 16 word \<Rightarrow> inet_ep_t" where
  "ep6 a p = \<lparr>addr = \<lparr>version = 2, addr_bytes = a\<rparr>, port = p\<rparr>"

definition example_assoc :: udp_assoc_t where
  "example_assoc =
     \<lparr>ident = \<lparr>local_link = 0, local_ep = ep4 167772161 53, remote_ep = ep4 0 0\<rparr>,
      rcv_queue = [], refcnt = 2, deleted = False, reset = False, cb = 0, cb_arg = 4\<rparr>"

definition example_udp_state :: udp_state where
  "example_udp_state = \<lparr>assocs = [1 \<mapsto> example_assoc], assoc_list = [1], utrace = []\<rparr>"

definition example_repp :: inet_ep2_t where
  "example_repp = \<lparr>local_link = 0, local_ep = ep4 167772161 53, remote_ep = ep4 134744072 4000\<rparr>"

definition idle_recv_msg :: "nat \<Rightarrow> nat \<Rightarrow> inet_ep2_t \<Rightarrow> ptr \<Rightarrow> udp_state \<Rightarrow> udp_state" where
  "idle_recv_msg c arg repp msg s = s"

definition example_udp_state_reset :: udp_state where
  "example_udp_state_reset =
     \<lparr>assocs = [1 \<mapsto> example_assoc\<lparr>reset := True\<rparr>], assoc_list = [1], utrace = [UBroadcast 1]\<rparr>"

definition example_udp_state_reset_queued :: udp_state where
  "example_udp_state_reset_queued =
     \<lparr>assocs = [1 \<mapsto> example_assoc\<lparr>rcv_queue := [\<lparr>rqe_epp = example_repp, rqe_msg = 60\<rparr>],
                                       reset := True\<rparr>],
      assoc_list = [1], utrace = []\<rparr>"

text \<open>
  What the other fibrils do while a fibril waits in \<open>udp_assoc_recv\<close>, when the last
  thing that happens before the fibril runs again is \<open>udp_assoc_reset\<close> on the
  association: \<open>w\<close>, then the reset.
\<close>

definition reset_wake ::
  "ptr \<Rightarrow> (udp_state \<Rightarrow> fault + udp_state) \<Rightarrow> udp_state \<Rightarrow> fault + udp_state" where
  "reset_wake a w t = (case w t of Inl e \<Rightarrow> Inl e | Inr t1 \<Rightarrow> udp_assoc_reset a t1)"

section \<open>Theorems\<close>

subsection \<open>Timeval\<close>

text \<open>
  C6. The claim: for a normalized timeval and a non-negative amount of microseconds,
  \<open>tv_add\<close> yields a normalized timeval. The carry test of \<open>tv_add\<close> is \<open>> 1000000\<close>
  where it has to be \<open>\<ge> 1000000\<close>: adding 500000 microseconds to 0 s 500000 us leaves
  \<open>tv_usec = 1000000\<close>, one past the normalized range, and no carry into the seconds.
\<close>

theorem tv_add_not_normalized:
  "normalized \<lparr>tv_sec = 0, tv_usec = 500000\<rparr> \<and> (0::int) \<le> 500000 \<and>
   tv_add \<lparr>tv_sec = 0, tv_usec = 500000\<rparr> 500000 = \<lparr>tv_sec = 0, tv_usec = 1000000\<rparr> \<and>
   \<not> normalized (tv_add \<lparr>tv_sec = 0, tv_usec = 500000\<rparr> 500000)"
  by (simp add: tv_add_def normalized_def signed_divide_int_def signed_modulo_int_def)

text \<open>
  The carry is missed at that one value only: for a normalized timeval and a
  non-negative amount the microseconds stay between 0 and 1000000, both included.
\<close>

lemma smod_nonneg_range:
  "(0::int) \<le> u \<Longrightarrow> 0 \<le> u smod 1000000 \<and> u smod 1000000 < 1000000"
  by (simp add: signed_modulo_int_def sgn_if)

lemma tv_add_usec_range:
  assumes "normalized tv" and "0 \<le> u"
  shows "0 \<le> tv_usec (tv_add tv u) \<and> tv_usec (tv_add tv u) \<le> 1000000"
  using assms smod_nonneg_range [of u]
  by (auto simp: tv_add_def normalized_def Let_def)

subsection \<open>The example states\<close>

lemma conn_hash_16: "conn_hash 16 = 1"
  by (simp add: conn_hash_def CONN_HASH_TABLE_CHAINS_def drop_bit_eq_div)

lemma find_example: "hash_table_find example_state 16 = Some 1"
  by (simp add: hash_table_find_def conn_hash_16 example_state_def conn_compare_def
        example_conn_def)

lemma find_example_queued: "hash_table_find example_state_queued 16 = Some 1"
  by (simp add: hash_table_find_def conn_hash_16 example_state_queued_def example_state_def
        conn_compare_def example_conn_def)

subsection \<open>Allocation failure\<close>

text \<open>
  C2. The claim: when the allocation of the message structure fails, \<open>route_call\<close> and
  \<open>async_send_2\<close> handle the failure and do not dereference a null pointer. Neither
  function tests what \<^verbatim>\<open>malloc\<close> returns: the statement after the allocation stores
  through the pointer. With a connection for the call in the table and \<^verbatim>\<open>malloc\<close>
  returning null, \<open>route_call\<close> ends in a null dereference, and so does \<open>async_send_2\<close>
  in any state. (\<^verbatim>\<open>async_new_connection\<close> in the same file does test its allocation
  and answers \<open>ENOMEM\<close>.)
\<close>

theorem alloc_failure_null_deref:
  "hash_table_find example_state (in_phone_hash example_call) = Some 1 \<and>
   route_call 7 example_call None example_state = Inl NullDeref \<and>
   async_send_2 1 1024 0 0 None None example_state = Inl NullDeref"
  by (simp add: route_call_def async_send_2_def example_call_def find_example)

text \<open>The same in every state: a null result of \<^verbatim>\<open>malloc\<close> is dereferenced.\<close>

lemma route_call_malloc_null:
  "hash_table_find s (in_phone_hash c) = Some hlp \<Longrightarrow> route_call cid c None s = Inl NullDeref"
  by (simp add: route_call_def)

lemma async_send_2_malloc_null:
  "async_send_2 phoneid method a1 a2 dataptr None s = Inl NullDeref"
  by (simp add: async_send_2_def)

subsection \<open>Delivery in enqueue order\<close>

lemma route_call_fifo:
  assumes "route_call cid c mp s = Inr (b, s')" and "conns s pc = Some conn"
  shows "conns s' pc \<noteq> None \<and>
         fifo s' pc = fifo s pc @
           (if b \<and> hash_table_find s (in_phone_hash c) = Some pc then [(cid, c)] else [])"
  using assms
  by (auto simp: route_call_def fifo_def list_append_def Let_def
           split: option.splits if_splits)

lemma manager_routes_fifo:
  "manager_routes pc rs s = Inr (log, s') \<Longrightarrow> conns s pc \<noteq> None \<Longrightarrow>
     conns s' pc \<noteq> None \<and> fifo s' pc = fifo s pc @ log"
proof (induction rs arbitrary: s log)
  case Nil
  then show ?case by simp
next
  case (Cons r rs)
  obtain cid c mp where r: "r = (cid, c, mp)" by (cases r)
  from Cons.prems obtain b s1 l2 where
    rc: "route_call cid c mp s = Inr (b, s1)" and
    mr: "manager_routes pc rs s1 = Inr (l2, s')" and
    lg: "log = (if b \<and> hash_table_find s (in_phone_hash c) = Some pc then [(cid, c)] else []) @ l2"
    by (auto simp: r split: sum.splits)
  from Cons.prems obtain conn where "conns s pc = Some conn" by auto
  from route_call_fifo [OF rc this]
  have 1: "conns s1 pc \<noteq> None" and
       2: "fifo s1 pc = fifo s pc @
             (if b \<and> hash_table_find s (in_phone_hash c) = Some pc then [(cid, c)] else [])"
    by simp_all
  from Cons.IH [OF mr 1] show ?case by (simp add: 2 lg)
qed

lemma async_get_call_fifo:
  assumes "async_get_call pc (routes_sched pc rs) s = Inr (x, s1)"
  shows "conns s1 pc \<noteq> None \<and> fifo s pc @ routed_while_suspended pc rs s = x # fifo s1 pc"
proof -
  from assms obtain conn where c: "conns s pc = Some conn"
    by (auto simp: async_get_call_def split: option.splits)
  show ?thesis
  proof (cases "msg_queue conn = []")
    case False
    with assms c show ?thesis
      by (auto simp: async_get_call_def fifo_def routed_while_suspended_def list_empty_def
               split: option.splits list.splits)
  next
    case True
    let ?t = "s\<lparr>conns := (conns s)(pc \<mapsto> conn\<lparr>conn_active := False\<rparr>)\<rparr>"
    from assms c True obtain l t where
      mr: "manager_routes pc rs ?t = Inr (l, t)"
      by (auto simp: async_get_call_def list_empty_def routes_sched_def split: sum.splits)
    have "conns ?t pc \<noteq> None" by simp
    from manager_routes_fifo [OF mr this]
    have t: "conns t pc \<noteq> None" "fifo t pc = l"
      by (simp_all add: fifo_def True)
    have rw: "routed_while_suspended pc rs s = l"
      by (simp add: routed_while_suspended_def c True list_empty_def mr)
    from assms c True mr t show ?thesis
      by (auto simp: async_get_call_def list_empty_def routes_sched_def rw fifo_def
               split: option.splits list.splits)
  qed
qed

text \<open>
  C5. The calls routed to a connection are delivered to its fibril in enqueue order. In
  every run of a connection \<open>pc\<close> that ends without a fault, the calls that were in the
  FIFO at the start followed by the calls that \<open>route_call\<close> enqueued, in the order of
  the enqueues, are the calls that \<open>async_get_call\<close> returned, in the order of the
  returns, followed by the calls still in the FIFO at the end. So with a FIFO that is
  empty at the start the returned sequence is a prefix of the enqueued sequence, and it
  is the whole of it when the FIFO is empty at the end.
\<close>

theorem calls_delivered_in_enqueue_order:
  "run_actions pc acts s = Inr (got, put, s') \<Longrightarrow> conns s pc \<noteq> None \<Longrightarrow>
     fifo s pc @ put = got @ fifo s' pc"
proof (induction acts arbitrary: s got put)
  case Nil
  then show ?case by simp
next
  case (Cons a acts)
  show ?case
  proof (cases a)
    case (Route cid c mp)
    with Cons.prems obtain l s1 got1 put1 where
      mr: "manager_routes pc [(cid, c, mp)] s = Inr (l, s1)" and
      ra: "run_actions pc acts s1 = Inr (got1, put1, s')" and
      eq: "got = got1" "put = l @ put1"
      by (auto split: sum.splits simp del: manager_routes.simps)
    from manager_routes_fifo [OF mr Cons.prems(2)]
    have 1: "conns s1 pc \<noteq> None" and 2: "fifo s1 pc = fifo s pc @ l" by simp_all
    from Cons.IH [OF ra 1] show ?thesis by (simp add: eq 2)
  next
    case (GetCall rs)
    with Cons.prems obtain x s1 got1 put1 where
      gc: "async_get_call pc (routes_sched pc rs) s = Inr (x, s1)" and
      ra: "run_actions pc acts s1 = Inr (got1, put1, s')" and
      eq: "got = x # got1" "put = routed_while_suspended pc rs s @ put1"
      by (auto split: sum.splits)
    from async_get_call_fifo [OF gc]
    have 1: "conns s1 pc \<noteq> None" and
         2: "fifo s pc @ routed_while_suspended pc rs s = x # fifo s1 pc" by simp_all
    from Cons.IH [OF ra 1] have "fifo s1 pc @ put1 = got1 @ fifo s' pc" .
    then show ?thesis using 2 by (simp add: eq) (metis append_Cons append_assoc)
  qed
qed

lemma example_run:
  "\<exists>s'. run_actions 1
          [Route 7 example_call (Some 10), GetCall [],
           GetCall [(8, example_call, Some 11), (9, example_call\<lparr>ipc_arg1 := 1\<rparr>, Some 12)],
           GetCall []] example_state
        = Inr ([(7, example_call), (8, example_call), (9, example_call\<lparr>ipc_arg1 := 1\<rparr>)],
               [(7, example_call), (8, example_call), (9, example_call\<lparr>ipc_arg1 := 1\<rparr>)], s')
        \<and> fifo s' 1 = []"
  by (simp add: route_call_def async_get_call_def routes_sched_def routed_while_suspended_def
        hash_table_find_def conn_hash_16 conn_compare_def list_append_def list_empty_def
        example_state_def example_conn_def example_call_def fifo_def)

text \<open>
  A run of the example connection: one call is routed and fetched; the fibril asks for
  the next call, waits, and two calls are routed before it runs again; it fetches both.
\<close>

theorem calls_delivered_in_enqueue_order_witness:
  "conns example_state 1 \<noteq> None \<and>
   (\<exists>s'. run_actions 1
          [Route 7 example_call (Some 10), GetCall [],
           GetCall [(8, example_call, Some 11), (9, example_call\<lparr>ipc_arg1 := 1\<rparr>, Some 12)],
           GetCall []] example_state
        = Inr ([(7, example_call), (8, example_call), (9, example_call\<lparr>ipc_arg1 := 1\<rparr>)],
               [(7, example_call), (8, example_call), (9, example_call\<lparr>ipc_arg1 := 1\<rparr>)], s')
      \<and> fifo example_state 1 @
          [(7, example_call), (8, example_call), (9, example_call\<lparr>ipc_arg1 := 1\<rparr>)]
        = [(7, example_call), (8, example_call), (9, example_call\<lparr>ipc_arg1 := 1\<rparr>)] @ fifo s' 1)"
proof -
  have nn: "conns example_state 1 \<noteq> None" by (simp add: example_state_def)
  from example_run obtain s' where
    r: "run_actions 1
          [Route 7 example_call (Some 10), GetCall [],
           GetCall [(8, example_call, Some 11), (9, example_call\<lparr>ipc_arg1 := 1\<rparr>, Some 12)],
           GetCall []] example_state
        = Inr ([(7, example_call), (8, example_call), (9, example_call\<lparr>ipc_arg1 := 1\<rparr>)],
               [(7, example_call), (8, example_call), (9, example_call\<lparr>ipc_arg1 := 1\<rparr>)], s')"
    by blast
  from calls_delivered_in_enqueue_order [OF r nn] r nn show ?thesis by blast
qed

subsection \<open>The end of a connection\<close>

lemma connection_thread_loop_drains:
  "conns s pc = Some conn \<Longrightarrow> msg_queue conn = q \<Longrightarrow>
     \<exists>s'. connection_thread_loop pc s = Inr s' \<and>
          trace s' = trace s @ hangup_events q \<and>
          conns s' pc = Some (conn\<lparr>msg_queue := []\<rparr>) \<and>
          conn_hash_table s' = conn_hash_table s"
proof (induction q arbitrary: s conn)
  case Nil
  then show ?case by (subst connection_thread_loop.simps) (simp add: hangup_events_def)
next
  case (Cons x q)
  obtain m msg where x: "x = (m, msg)" by (cases x)
  let ?s1 = "s\<lparr>conns := (conns s)(pc \<mapsto> conn\<lparr>msg_queue := q\<rparr>),
               trace := trace s @ [EvAnswer (callid msg) EHANGUP, EvFreeMsg m]\<rparr>"
  have step: "connection_thread_loop pc s = connection_thread_loop pc ?s1"
    using Cons.prems by (subst connection_thread_loop.simps) (simp add: x)
  have "conns ?s1 pc = Some (conn\<lparr>msg_queue := q\<rparr>)" "msg_queue (conn\<lparr>msg_queue := q\<rparr>) = q"
    by simp_all
  from Cons.IH [OF this] obtain s' where
    "connection_thread_loop pc ?s1 = Inr s'"
    "trace s' = trace ?s1 @ hangup_events q"
    "conns s' pc = Some (conn\<lparr>msg_queue := q, msg_queue := []\<rparr>)"
    "conn_hash_table s' = conn_hash_table ?s1"
    by blast
  then show ?case
    by (simp add: step x hangup_events_def)
qed

text \<open>
  The remove callback of the hash table frees the connection: after
  \<open>hash_table_remove\<close> has found it, the connection is in no store.
\<close>

lemma hash_table_remove_frees:
  "hash_table_find s key = Some item \<Longrightarrow>
     conns (hash_table_remove key s) item = None \<and>
     trace (hash_table_remove key s) = trace s @ [EvHashRemove key item, EvFreeConn item]"
  by (simp add: hash_table_remove_def conn_remove_def)

text \<open>
  So for every connection that is in the table when its handler returns (in the state
  \<open>s1\<close>), the final loop of \<open>connection_thread\<close> starts by reading the queue head out
  of the freed connection, whatever the queue holds.
\<close>

lemma connection_thread_use_after_free:
  assumes "conns s arg = Some conn"
      and "s1 = run (cthread conn) (conn_callid conn) (conn_call conn) s"
      and "conns s1 arg = Some conn1"
      and "hash_table_find s1 (conn_in_phone_hash conn1) = Some arg"
  shows "connection_thread run arg s = Inl BadPointer"
proof -
  let ?s2 = "hash_table_remove (conn_in_phone_hash conn1) s1"
  have ct: "connection_thread run arg s = connection_thread_loop arg ?s2"
    using assms by (simp add: connection_thread_def Let_def)
  have "conns ?s2 arg = None"
    using hash_table_remove_frees [OF assms(4)] by simp
  then have "connection_thread_loop arg ?s2 = Inl BadPointer"
    by (subst connection_thread_loop.simps) simp
  with ct show ?thesis by simp
qed

text \<open>
  C1. The claim: when the handler has returned, the fibril first drains the FIFO,
  answering each still-queued call with \<open>EHANGUP\<close> and freeing each queued message, and
  then removes the connection from the table and frees the connection structure; every
  message that was in the FIFO gets an \<open>EHANGUP\<close> answer. The code calls
  \<open>hash_table_remove\<close> first, whose remove callback \<open>conn_remove\<close> frees the
  connection, and runs the loop that answers the queued calls after it: the loop reads
  \<^verbatim>\<open>conn->msg_queue\<close> through the pointer to the freed connection. With one call (call
  id 7) queued on the example connection and a handler that returns at once, the
  connection is removed from the table and freed, and the run ends at the first read of
  the loop, before any \<open>EHANGUP\<close> answer.
\<close>

theorem connection_thread_drains_freed_connection:
  "fifo example_state_queued 1 = [(7, example_call)] \<and>
   hash_table_find example_state_queued 16 = Some 1 \<and>
   trace (hash_table_remove 16 example_state_queued) = [EvHashRemove 16 1, EvFreeConn 1] \<and>
   conns (hash_table_remove 16 example_state_queued) 1 = None \<and>
   connection_thread idle_handler 1 example_state_queued = Inl BadPointer"
proof -
  let ?c = "example_conn\<lparr>msg_queue := [(10, \<lparr>callid = 7, call = example_call\<rparr>)]\<rparr>"
  have a: "conns example_state_queued 1 = Some ?c"
    by (simp add: example_state_queued_def)
  have f: "fifo example_state_queued 1 = [(7, example_call)]"
    using a by (simp add: fifo_def)
  have h: "hash_table_find example_state_queued 16 = Some 1"
    by (rule find_example_queued)
  have t0: "trace example_state_queued = []"
    by (simp add: example_state_queued_def example_state_def)
  have r: "conns (hash_table_remove 16 example_state_queued) 1 = None"
          "trace (hash_table_remove 16 example_state_queued) = [EvHashRemove 16 1, EvFreeConn 1]"
    using hash_table_remove_frees [OF h] by (simp_all add: t0)
  have k: "conn_in_phone_hash ?c = 16" by (simp add: example_conn_def)
  have "connection_thread idle_handler 1 example_state_queued =
          connection_thread_loop 1 (hash_table_remove 16 example_state_queued)"
    using a by (simp add: connection_thread_def idle_handler_def k)
  also have "\<dots> = Inl BadPointer"
    using r(1) by (subst connection_thread_loop.simps) simp
  finally show ?thesis using f h r by simp
qed

subsection \<open>Waiting with a timeout\<close>

text \<open>
  C3. For an outstanding message \<open>p\<close> on which \<open>async_wait_timeout\<close> is called: when
  \<^verbatim>\<open>done\<close> holds on entry, the function stores the return value (if the out-pointer is
  not null), frees the message and returns 0, whatever the scheduler would do (it does
  not block). Otherwise it blocks; when it is resumed (in the state \<open>s2\<close>) and the reply
  has not arrived, it returns \<open>ETIMEOUT\<close> and leaves the state as it found it, the
  message still allocated; when the reply has arrived, it stores the return value, frees
  the message and returns 0.
\<close>

theorem async_wait_timeout_outcomes:
  assumes "amsgs s p = Some msg"
  shows "(m_done msg \<longrightarrow>
            async_wait_timeout p want t self now sched s =
              Inr (EOK, (if want then Some (m_retval msg) else None), freed_amsg p s)) \<and>
         (\<not> m_done msg \<and> insert_timeout p (suspended_timeout p t self now msg s) = Inr s1 \<and>
          sched s1 = Inr s2 \<and> amsgs s2 p = Some msg2 \<longrightarrow>
            (\<not> m_done msg2 \<longrightarrow>
               async_wait_timeout p want t self now sched s = Inr (ETIMEOUT, None, s2)) \<and>
            (m_done msg2 \<longrightarrow>
               async_wait_timeout p want t self now sched s =
                 Inr (EOK, (if want then Some (m_retval msg2) else None), freed_amsg p s2)))"
  using assms
  by (simp add: async_wait_timeout_def wait_done_def suspended_timeout_def freed_amsg_def)

lemma example_suspended:
  "insert_timeout 20 (suspended_timeout 20 1000000 9 example_now example_amsg example_state_sent) =
     Inr ((suspended_timeout 20 1000000 9 example_now example_amsg example_state_sent)
            \<lparr>timeout_list := [20]\<rparr>)"
  by (simp add: insert_timeout_def suspended_timeout_def example_state_sent_def example_state_def)

theorem async_wait_timeout_outcomes_witness:
  "(\<exists>s'. async_wait_timeout 20 True 1000000 9 example_now resumed_unchanged
           (example_state_sent\<lparr>amsgs := [20 \<mapsto> example_amsg\<lparr>m_done := True, m_retval := 42\<rparr>]\<rparr>)
         = Inr (EOK, Some 42, s') \<and> amsgs s' 20 = None) \<and>
   (\<exists>s'. async_wait_timeout 20 True 1000000 9 example_now resumed_unchanged example_state_sent
         = Inr (ETIMEOUT, None, s') \<and> amsgs s' 20 \<noteq> None) \<and>
   (\<exists>s'. async_wait_timeout 20 True 1000000 9 example_now
           (reply_received 20 5 (Some example_answer)) example_state_sent
         = Inr (EOK, Some 5, s') \<and> amsgs s' 20 = None)"
proof -
  let ?d = "example_state_sent\<lparr>amsgs := [20 \<mapsto> example_amsg\<lparr>m_done := True, m_retval := 42\<rparr>]\<rparr>"
  let ?s1 = "(suspended_timeout 20 1000000 9 example_now example_amsg example_state_sent)
               \<lparr>timeout_list := [20]\<rparr>"
  have a: "amsgs example_state_sent 20 = Some example_amsg"
    by (simp add: example_state_sent_def)
  have nd: "\<not> m_done example_amsg" by (simp add: example_amsg_def)
  have "amsgs ?d 20 = Some (example_amsg\<lparr>m_done := True, m_retval := 42\<rparr>)" by simp
  from async_wait_timeout_outcomes
         [where want = True and t = 1000000 and self = 9 and now = example_now
            and sched = resumed_unchanged, OF this]
  have 1: "\<exists>s'. async_wait_timeout 20 True 1000000 9 example_now resumed_unchanged ?d
         = Inr (EOK, Some 42, s') \<and> amsgs s' 20 = None"
    by (simp add: freed_amsg_def)
  have r2: "resumed_unchanged ?s1 = Inr ?s1" by (simp add: resumed_unchanged_def)
  have m2: "amsgs ?s1 20 = Some (example_amsg\<lparr>m_ptid := 9, m_active := False,
              m_has_timeout := True, m_expires := tv_add example_now 1000000\<rparr>)"
    by (simp add: suspended_timeout_def)
  from async_wait_timeout_outcomes
         [where want = True and t = 1000000 and self = 9 and now = example_now
            and sched = resumed_unchanged and ?s1.0 = ?s1 and ?s2.0 = ?s1, OF a]
       nd example_suspended r2 m2
  have 2: "\<exists>s'. async_wait_timeout 20 True 1000000 9 example_now resumed_unchanged
             example_state_sent = Inr (ETIMEOUT, None, s') \<and> amsgs s' 20 \<noteq> None"
    by (simp add: example_amsg_def)
  have "\<exists>s2. reply_received 20 5 (Some example_answer) ?s1 = Inr s2 \<and>
          amsgs s2 20 = Some (example_amsg\<lparr>m_ptid := 9, m_has_timeout := True,
              m_expires := tv_add example_now 1000000, m_retval := 5, m_done := True\<rparr>)"
    by (simp add: reply_received_def reply_received_stmts_def rr_set_retval_def rr_copy_data_def
        rr_unlink_def rr_set_done_def rr_wake_def suspended_timeout_def example_state_sent_def
        example_amsg_def)
  then obtain s2 where
    r3: "reply_received 20 5 (Some example_answer) ?s1 = Inr s2" and
    m3: "amsgs s2 20 = Some (example_amsg\<lparr>m_ptid := 9, m_has_timeout := True,
              m_expires := tv_add example_now 1000000, m_retval := 5, m_done := True\<rparr>)"
    by blast
  from async_wait_timeout_outcomes
         [where want = True and t = 1000000 and self = 9 and now = example_now
            and sched = "reply_received 20 5 (Some example_answer)" and ?s1.0 = ?s1
            and ?s2.0 = s2, OF a]
       nd example_suspended r3 m3
  have 3: "\<exists>s'. async_wait_timeout 20 True 1000000 9 example_now
           (reply_received 20 5 (Some example_answer)) example_state_sent
         = Inr (EOK, Some 5, s') \<and> amsgs s' 20 = None"
    by (simp add: freed_amsg_def)
  from 1 2 3 show ?thesis by blast
qed

subsection \<open>The reply callback\<close>

lemma rr_set_retval_effect:
  "rr_set_retval p r s = Inr s' \<Longrightarrow> \<not> is_done p s \<Longrightarrow> \<not> is_done p s'"
  by (auto simp: rr_set_retval_def is_done_def split: option.splits)

lemma rr_copy_data_effect:
  "rr_copy_data p d s = Inr s' \<Longrightarrow> \<not> is_done p s \<Longrightarrow> \<not> is_done p s'"
  by (auto simp: rr_copy_data_def is_done_def split: option.splits if_splits)

lemma rr_unlink_effect:
  "rr_unlink p s = Inr s' \<Longrightarrow> \<not> is_done p s \<Longrightarrow> \<not> is_done p s'"
  by (auto simp: rr_unlink_def is_done_def split: option.splits if_splits)

lemma rr_retval_then_data:
  "rr_set_retval p r s = Inr s1 \<Longrightarrow> rr_copy_data p d s1 = Inr s2 \<Longrightarrow> retval_in_place p r d s2"
  by (auto simp: rr_set_retval_def rr_copy_data_def retval_in_place_def
           split: option.splits if_splits)

lemma rr_unlink_keeps:
  "rr_unlink p s = Inr s' \<Longrightarrow> retval_in_place p r d s \<Longrightarrow> retval_in_place p r d s'"
  by (auto simp: rr_unlink_def retval_in_place_def split: option.splits if_splits)

lemma rr_set_done_keeps:
  "rr_set_done p s = Inr s' \<Longrightarrow> retval_in_place p r d s \<Longrightarrow>
     retval_in_place p r d s' \<and> is_done p s'"
  by (auto simp: rr_set_done_def retval_in_place_def is_done_def split: option.splits)

lemma rr_wake_keeps:
  "rr_wake p s = Inr s' \<Longrightarrow> retval_in_place p r d s \<and> is_done p s \<Longrightarrow>
     retval_in_place p r d s' \<and> is_done p s'"
  by (auto simp: rr_wake_def retval_in_place_def is_done_def split: option.splits if_splits)

lemma reply_received_states_published:
  assumes nd: "\<not> is_done p s"
  shows "\<forall>s' \<in> set (s # exec_states (reply_received_stmts p r d) s). retval_published p r d s'"
proof -
  have p0: "retval_published p r d s" using nd by (simp add: retval_published_def)
  show ?thesis
  proof (cases "rr_set_retval p r s")
    case (Inl e)
    then show ?thesis using p0 by (simp add: reply_received_stmts_def)
  next
    case (Inr s1)
    note a1 = this
    from rr_set_retval_effect [OF a1 nd] have p1: "retval_published p r d s1"
      by (simp add: retval_published_def)
    have nd1: "\<not> is_done p s1" by (rule rr_set_retval_effect [OF a1 nd])
    show ?thesis
    proof (cases "rr_copy_data p d s1")
      case (Inl e)
      then show ?thesis using p0 p1 a1 by (simp add: reply_received_stmts_def)
    next
      case (Inr s2)
      note a2 = this
      have nd2: "\<not> is_done p s2" by (rule rr_copy_data_effect [OF a2 nd1])
      have p2: "retval_published p r d s2" using nd2 by (simp add: retval_published_def)
      have ip2: "retval_in_place p r d s2" by (rule rr_retval_then_data [OF a1 a2])
      show ?thesis
      proof (cases "rr_unlink p s2")
        case (Inl e)
        then show ?thesis using p0 p1 p2 a1 a2 by (simp add: reply_received_stmts_def)
      next
        case (Inr s3)
        note a3 = this
        have ip3: "retval_in_place p r d s3" by (rule rr_unlink_keeps [OF a3 ip2])
        then have p3: "retval_published p r d s3" by (simp add: retval_published_def)
        show ?thesis
        proof (cases "rr_set_done p s3")
          case (Inl e)
          then show ?thesis using p0 p1 p2 p3 a1 a2 a3 by (simp add: reply_received_stmts_def)
        next
          case (Inr s4)
          note a4 = this
          have ip4: "retval_in_place p r d s4 \<and> is_done p s4"
            by (rule rr_set_done_keeps [OF a4 ip3])
          then have p4: "retval_published p r d s4" by (simp add: retval_published_def)
          show ?thesis
          proof (cases "rr_wake p s4")
            case (Inl e)
            then show ?thesis using p0 p1 p2 p3 p4 a1 a2 a3 a4
              by (simp add: reply_received_stmts_def)
          next
            case (Inr s5)
            from rr_wake_keeps [OF Inr ip4] have "retval_published p r d s5"
              by (simp add: retval_published_def)
            then show ?thesis using p0 p1 p2 p3 p4 a1 a2 a3 a4 Inr
              by (simp add: reply_received_stmts_def)
          qed
        qed
      qed
    qed
  qed
qed

lemma reply_received_result:
  assumes "reply_received p r d s = Inr s'"
  shows "retval_in_place p r d s' \<and> is_done p s'"
proof -
  from assms obtain s1 s2 s3 s4 where
    a: "rr_set_retval p r s = Inr s1" "rr_copy_data p d s1 = Inr s2" "rr_unlink p s2 = Inr s3"
       "rr_set_done p s3 = Inr s4" "rr_wake p s4 = Inr s'"
    by (auto simp: reply_received_def reply_received_stmts_def split: sum.splits)
  have "retval_in_place p r d s2" by (rule rr_retval_then_data [OF a(1) a(2)])
  then have "retval_in_place p r d s3" by (rule rr_unlink_keeps [OF a(3)])
  then have "retval_in_place p r d s4 \<and> is_done p s4" by (rule rr_set_done_keeps [OF a(4)])
  then show ?thesis by (rule rr_wake_keeps [OF a(5)])
qed

lemma wait_for_after_reply:
  assumes "amsgs s p = Some m" "\<not> m_done m"
      and "async_wait_for p True self (reply_received p r d) s = Inr (out, s')"
  shows "out = Some (scast r)"
proof -
  let ?t = "s\<lparr>amsgs := (amsgs s)(p \<mapsto> m\<lparr>m_ptid := self, m_active := False,
                                          m_has_timeout := False\<rparr>)\<rparr>"
  from assms obtain s1 where
    rr: "reply_received p r d ?t = Inr s1" and wd: "wait_done p True s1 = Inr (out, s')"
    by (auto simp: async_wait_for_def split: sum.splits)
  from reply_received_result [OF rr] wd show ?thesis
    by (auto simp: retval_in_place_def wait_done_def split: option.splits)
qed

text \<open>
  C4. For an outstanding message \<open>p\<close> (allocated, \<^verbatim>\<open>done\<close> not set): in every state
  that \<open>reply_received\<close> passes through, from the state before its first statement to
  the state after its last one, \<^verbatim>\<open>done\<close> is set only if \<^verbatim>\<open>retval\<close> holds the value of
  the reply and, when \<^verbatim>\<open>dataptr\<close> is not null, the buffer holds the answer payload;
  after the callback \<^verbatim>\<open>done\<close> is set; and a fibril that waits in \<open>async_wait_for\<close>
  while the callback runs reads that return value when it is resumed.
\<close>

theorem done_only_after_retval:
  assumes "amsgs s p = Some m" and "\<not> m_done m"
  shows "(\<forall>s' \<in> set (s # exec_states (reply_received_stmts p r d) s). retval_published p r d s') \<and>
         (\<forall>s'. reply_received p r d s = Inr s' \<longrightarrow> is_done p s' \<and> retval_in_place p r d s') \<and>
         (\<forall>out s'. async_wait_for p True self (reply_received p r d) s = Inr (out, s') \<longrightarrow>
                      out = Some (scast r))"
proof -
  have nd: "\<not> is_done p s" using assms by (simp add: is_done_def)
  show ?thesis
    using reply_received_states_published [OF nd] reply_received_result
          wait_for_after_reply [OF assms]
    by blast
qed

lemma example_reply:
  "\<exists>s'. reply_received 20 5 (Some example_answer) example_state_sent = Inr s' \<and>
      amsgs s' 20 = Some (example_amsg\<lparr>m_retval := 5, m_done := True\<rparr>) \<and>
      bufs s' 30 = Some example_answer"
  by (simp add: reply_received_def reply_received_stmts_def rr_set_retval_def rr_copy_data_def
        rr_unlink_def rr_set_done_def rr_wake_def example_state_sent_def example_amsg_def)

lemma example_wait_for:
  "\<exists>out s'. async_wait_for 20 True 9 (reply_received 20 5 (Some example_answer))
              example_state_sent = Inr (out, s')"
  by (simp add: async_wait_for_def wait_done_def
        reply_received_def reply_received_stmts_def rr_set_retval_def rr_copy_data_def
        rr_unlink_def rr_set_done_def rr_wake_def example_state_sent_def example_amsg_def)

theorem done_only_after_retval_witness:
  "amsgs example_state_sent 20 = Some example_amsg \<and> \<not> m_done example_amsg \<and>
   (\<exists>s'. reply_received 20 5 (Some example_answer) example_state_sent = Inr s' \<and>
         is_done 20 s' \<and> retval_in_place 20 5 (Some example_answer) s' \<and>
         amsgs s' 20 = Some (example_amsg\<lparr>m_retval := 5, m_done := True\<rparr>) \<and>
         bufs s' 30 = Some example_answer) \<and>
   (\<exists>s'. async_wait_for 20 True 9 (reply_received 20 5 (Some example_answer))
           example_state_sent = Inr (Some 5, s'))"
proof -
  have a: "amsgs example_state_sent 20 = Some example_amsg"
    by (simp add: example_state_sent_def)
  have b: "\<not> m_done example_amsg" by (simp add: example_amsg_def)
  note th = done_only_after_retval
              [where r = 5 and d = "Some example_answer" and self = 9, OF a b]
  from example_reply obtain s1 where
    s1: "reply_received 20 5 (Some example_answer) example_state_sent = Inr s1"
        "amsgs s1 20 = Some (example_amsg\<lparr>m_retval := 5, m_done := True\<rparr>)"
        "bufs s1 30 = Some example_answer"
    by blast
  from th s1(1) have c: "is_done 20 s1 \<and> retval_in_place 20 5 (Some example_answer) s1" by blast
  from example_wait_for obtain out s2 where
    s2: "async_wait_for 20 True 9 (reply_received 20 5 (Some example_answer))
           example_state_sent = Inr (out, s2)"
    by blast
  with th have "out = Some (scast (5 :: 32 word))" by blast
  then have "out = Some 5" by simp
  with s2 a b c s1 show ?thesis by blast
qed

subsection \<open>Sending on an association\<close>

text \<open>
  C7. \<open>udp_assoc_send\<close> returns \<open>EINVAL\<close> when the effective remote address (after
  the optional override) is ANY, when the effective remote port is ANY, or when the
  versions of the remote and the local address differ; the state it returns is the state
  it was given, trace included: no PDU was encoded (so none was allocated) and nothing
  was transmitted.
\<close>

theorem udp_assoc_send_einval:
  assumes "assocs s a = Some A"
      and "inet_addr_is_any ext (addr (remote_ep (send_epp A remote))) \<or>
           port (remote_ep (send_epp A remote)) = inet_port_any ext \<or>
           version (addr (remote_ep (send_epp A remote))) \<noteq>
             version (addr (local_ep (send_epp A remote)))"
  shows "udp_assoc_send ext a remote msg s = Inr (EINVAL, s)"
  using assms by (auto simp: udp_assoc_send_def Let_def)

theorem udp_assoc_send_einval_witness:
  "udp_assoc_send example_ext 1 None 60 example_udp_state = Inr (EINVAL, example_udp_state) \<and>
   udp_assoc_send example_ext 1 (Some (ep4 134744072 0)) 60 example_udp_state
     = Inr (EINVAL, example_udp_state) \<and>
   udp_assoc_send example_ext 1 (Some (ep6 134744072 4000)) 60 example_udp_state
     = Inr (EINVAL, example_udp_state)"
proof -
  have a: "assocs example_udp_state 1 = Some example_assoc"
    by (simp add: example_udp_state_def)
  have 1: "inet_addr_is_any example_ext (addr (remote_ep (send_epp example_assoc None)))"
    by (simp add: example_ext_def send_epp_def example_assoc_def ep4_def)
  have 2: "port (remote_ep (send_epp example_assoc (Some (ep4 134744072 0)))) =
             inet_port_any example_ext"
    by (simp add: example_ext_def send_epp_def ep4_def)
  have 3: "version (addr (remote_ep (send_epp example_assoc (Some (ep6 134744072 4000))))) \<noteq>
           version (addr (local_ep (send_epp example_assoc (Some (ep6 134744072 4000)))))"
    by (simp add: send_epp_def example_assoc_def ep4_def ep6_def)
  show ?thesis
    using udp_assoc_send_einval [where ext = example_ext and remote = None and msg = 60, OF a]
          udp_assoc_send_einval [where ext = example_ext and remote = "Some (ep4 134744072 0)"
            and msg = 60, OF a]
          udp_assoc_send_einval [where ext = example_ext and remote = "Some (ep6 134744072 4000)"
            and msg = 60, OF a]
          1 2 3
    by blast
qed

text \<open>
  C10. \<open>udp_assoc_send\<close> does not modify the association it is given: whatever it
  returns, with or without a remote override, the associations (the identity of each
  among the rest) and the association list are what they were before the call.
\<close>

theorem udp_assoc_send_keeps_assoc:
  "udp_assoc_send ext a remote msg s = Inr (rc, s') \<Longrightarrow>
     assocs s' = assocs s \<and> assoc_list s' = assoc_list s"
  by (auto simp: udp_assoc_send_def Let_def split: option.splits if_splits prod.splits)

theorem udp_assoc_send_keeps_assoc_witness:
  "\<exists>s'. udp_assoc_send example_ext 1 (Some (ep4 134744072 4000)) 60 example_udp_state
          = Inr (EOK, s') \<and>
        utrace s' = [UPduEncode example_repp 60, UTransmit 70, UPduDelete 70] \<and>
        assocs s' = assocs example_udp_state \<and> assoc_list s' = assoc_list example_udp_state \<and>
        assocs s' 1 = Some example_assoc"
proof -
  have "\<exists>s'. udp_assoc_send example_ext 1 (Some (ep4 134744072 4000)) 60 example_udp_state
          = Inr (EOK, s') \<and>
        utrace s' = [UPduEncode example_repp 60, UTransmit 70, UPduDelete 70]"
    by (simp add: udp_assoc_send_def send_epp_def example_udp_state_def example_assoc_def
          example_ext_def ep4_def example_repp_def)
  then obtain s' where
    r: "udp_assoc_send example_ext 1 (Some (ep4 134744072 4000)) 60 example_udp_state
          = Inr (EOK, s')" and
    t: "utrace s' = [UPduEncode example_repp 60, UTransmit 70, UPduDelete 70]"
    by blast
  from udp_assoc_send_keeps_assoc [OF r] r t show ?thesis
    by (auto simp: example_udp_state_def)
qed

subsection \<open>Reset of an association\<close>

lemma recv_wait_ready:
  "assocs s a = Some A \<Longrightarrow> \<not> (list_empty (rcv_queue A) \<and> \<not> reset A) \<Longrightarrow>
     udp_assoc_recv_wait a ws s = Some (Inr s)"
  by (subst udp_assoc_recv_wait.simps) auto

lemma recv_wait_blocked:
  "assocs s a = Some A \<Longrightarrow> list_empty (rcv_queue A) \<Longrightarrow> \<not> reset A \<Longrightarrow> w s = Inr s1 \<Longrightarrow>
     udp_assoc_recv_wait a (w # ws) s = udp_assoc_recv_wait a ws s1"
  by (subst udp_assoc_recv_wait.simps) simp

text \<open>
  C8. \<open>udp_assoc_reset\<close> sets \<^verbatim>\<open>reset\<close> and broadcasts on the condition variable.
  A call of \<open>udp_assoc_recv\<close> on an association with \<^verbatim>\<open>reset\<close> set returns \<open>ENXIO\<close>,
  no message, and the state as it was: nothing is taken from the receive queue. A fibril
  that waits in \<open>udp_assoc_recv\<close> (empty queue, no reset) and runs again after
  \<open>udp_assoc_reset\<close> returns \<open>ENXIO\<close> and takes nothing from the queue. And whenever the
  wait loop of \<open>udp_assoc_recv\<close> ends in a state with \<^verbatim>\<open>reset\<close> set, after any number of
  waits, the call returns \<open>ENXIO\<close> and leaves that state as it is.
\<close>

theorem reset_makes_recv_return_enxio:
  assumes "assocs s a = Some A"
  shows "udp_assoc_reset a s =
           Inr (s\<lparr>assocs := (assocs s)(a \<mapsto> A\<lparr>reset := True\<rparr>),
                  utrace := utrace s @ [UBroadcast a]\<rparr>) \<and>
         (reset A \<longrightarrow> udp_assoc_recv a ws s = Some (Inr (ENXIO, None, s))) \<and>
         (list_empty (rcv_queue A) \<and> \<not> reset A \<and> w s = Inr s1 \<and>
          udp_assoc_reset a s1 = Inr s2 \<longrightarrow>
            udp_assoc_recv a (reset_wake a w # ws) s
              = Some (Inr (ENXIO, None, s2))) \<and>
         (udp_assoc_recv_wait a ws s = Some (Inr s3) \<and> assocs s3 a = Some A3 \<and> reset A3 \<longrightarrow>
            udp_assoc_recv a ws s = Some (Inr (ENXIO, None, s3)))"
proof -
  have 1: "udp_assoc_reset a s =
           Inr (s\<lparr>assocs := (assocs s)(a \<mapsto> A\<lparr>reset := True\<rparr>),
                  utrace := utrace s @ [UBroadcast a]\<rparr>)"
    using assms by (simp add: udp_assoc_reset_def)
  have 2: "udp_assoc_recv a ws s = Some (Inr (ENXIO, None, s))" if "reset A"
    using assms that recv_wait_ready [OF assms, of ws]
    by (simp add: udp_assoc_recv_def)
  have 3: "udp_assoc_recv a (reset_wake a w # ws) s
              = Some (Inr (ENXIO, None, s2))"
    if b: "list_empty (rcv_queue A)" "\<not> reset A" and w: "w s = Inr s1"
      and r: "udp_assoc_reset a s1 = Inr s2"
  proof -
    let ?w = "reset_wake a w"
    have ws: "?w s = Inr s2" using w r by (simp add: reset_wake_def)
    from r obtain A1 where a1: "assocs s1 a = Some A1"
      by (auto simp: udp_assoc_reset_def split: option.splits)
    with r have a2: "assocs s2 a = Some (A1\<lparr>reset := True\<rparr>)"
      by (auto simp: udp_assoc_reset_def)
    have "udp_assoc_recv_wait a (?w # ws) s = udp_assoc_recv_wait a ws s2"
      by (rule recv_wait_blocked [where w = ?w, OF assms b ws])
    also have "\<dots> = Some (Inr s2)"
      by (rule recv_wait_ready [OF a2]) simp
    finally show ?thesis using a2 by (simp add: udp_assoc_recv_def)
  qed
  have 4: "udp_assoc_recv a ws s = Some (Inr (ENXIO, None, s3))"
    if "udp_assoc_recv_wait a ws s = Some (Inr s3)" "assocs s3 a = Some A3" "reset A3"
    using that by (simp add: udp_assoc_recv_def)
  from 1 2 3 4 show ?thesis by blast
qed

lemma example_reset: "udp_assoc_reset 1 example_udp_state = Inr example_udp_state_reset"
  by (simp add: udp_assoc_reset_def example_udp_state_def example_udp_state_reset_def)

theorem reset_makes_recv_return_enxio_witness:
  "udp_assoc_reset 1 example_udp_state = Inr example_udp_state_reset \<and>
   udp_assoc_recv 1 [] example_udp_state = None \<and>
   udp_assoc_recv 1 [] example_udp_state_reset = Some (Inr (ENXIO, None, example_udp_state_reset)) \<and>
   udp_assoc_recv 1 [] example_udp_state_reset_queued
     = Some (Inr (ENXIO, None, example_udp_state_reset_queued)) \<and>
   udp_assoc_recv 1 [reset_wake 1 Inr] example_udp_state
     = Some (Inr (ENXIO, None, example_udp_state_reset))"
proof -
  have a: "assocs example_udp_state 1 = Some example_assoc"
    by (simp add: example_udp_state_def)
  have b: "assocs example_udp_state_reset 1 = Some (example_assoc\<lparr>reset := True\<rparr>)"
    by (simp add: example_udp_state_reset_def)
  have c: "assocs example_udp_state_reset_queued 1 =
             Some (example_assoc\<lparr>rcv_queue := [\<lparr>rqe_epp = example_repp, rqe_msg = 60\<rparr>],
                                 reset := True\<rparr>)"
    by (simp add: example_udp_state_reset_queued_def)
  have blocked: "udp_assoc_recv 1 [] example_udp_state = None"
    by (subst udp_assoc_recv_def, subst udp_assoc_recv_wait.simps)
       (simp add: example_udp_state_def example_assoc_def list_empty_def)
  have e: "list_empty (rcv_queue example_assoc) \<and> \<not> reset example_assoc"
    by (simp add: example_assoc_def list_empty_def)
  have w: "Inr example_udp_state = (Inr example_udp_state :: fault + udp_state)" by simp
  note t1 = reset_makes_recv_return_enxio [where ws = "[]", OF b]
  note t2 = reset_makes_recv_return_enxio [where ws = "[]", OF c]
  note t3 = reset_makes_recv_return_enxio
              [where ws = "[]" and w = Inr and ?s1.0 = example_udp_state
                 and ?s2.0 = example_udp_state_reset, OF a]
  from t1 have 1: "udp_assoc_recv 1 [] example_udp_state_reset
                     = Some (Inr (ENXIO, None, example_udp_state_reset))" by simp
  from t2 have 2: "udp_assoc_recv 1 [] example_udp_state_reset_queued
                     = Some (Inr (ENXIO, None, example_udp_state_reset_queued))" by simp
  from t3 e example_reset
  have 3: "udp_assoc_recv 1 [reset_wake 1 Inr] example_udp_state
             = Some (Inr (ENXIO, None, example_udp_state_reset))"
    by blast
  from example_reset blocked 1 2 3 show ?thesis by blast
qed

subsection \<open>Delivery of a received datagram\<close>

lemma udp_assoc_delref_trace:
  "assocs s a = Some A \<Longrightarrow>
     \<exists>s'. udp_assoc_delref a s = Inr s' \<and>
          utrace s' = utrace s @ UDelref a #
            (if refcnt A - 1 = 0 then udp_assoc_free_queue (rcv_queue A) @ [UFreeAssoc a] else [])"
  by (simp add: udp_assoc_delref_def udp_assoc_free_def Let_def)

lemma udp_assoc_find_ref_found:
  "udp_assoc_find_ref ext epp s = Inr (Some a, s1) \<Longrightarrow>
     \<exists>A0. assocs s a = Some A0 \<and> assocs s1 a = Some (A0\<lparr>refcnt := refcnt A0 + 1\<rparr>) \<and>
          utrace s1 = utrace s @ [UAddref a]"
  by (auto simp: udp_assoc_find_ref_def udp_assoc_addref_def
           split: sum.splits option.splits)

text \<open>
  C9, as the claim states it: on the path of \<open>udp_assoc_received\<close> where an association
  is found, the reference taken by \<open>udp_assoc_find_ref\<close> is dropped before the callback
  \<^verbatim>\<open>recv_msg\<close> is called. In the code the callback is called first and
  \<open>udp_assoc_delref\<close> is the last statement: for the example datagram the drop of the
  reference does not occur before the call of the callback.
\<close>

theorem udp_assoc_received_delref_first_counterexample:
  "map_sum id utrace
     (udp_assoc_received example_ext idle_recv_msg example_repp 60 example_udp_state) =
     Inr [UAddref 1, URecvMsg 0 4 example_repp 60, UDelref 1] \<and>
   \<not> occurs_before (UDelref 1) (URecvMsg 0 4 example_repp 60)
       [UAddref 1, URecvMsg 0 4 example_repp 60, UDelref 1]"
  by code_simp

text \<open>
  C9, amended: on the path of \<open>udp_assoc_received\<close> where an association is found, the
  callback \<^verbatim>\<open>recv_msg\<close> is called while the reference taken by \<open>udp_assoc_find_ref\<close> is
  still held, and the \<open>udp_assoc_delref\<close> that drops this reference is performed after
  the callback has returned. (\<open>s1\<close> is the state after \<open>udp_assoc_find_ref\<close>, \<open>s2\<close> the
  state in which the callback returns; the association is still allocated then.)
\<close>

theorem udp_assoc_received_callback_then_delref:
  assumes "udp_assoc_find_ref ext repp s = Inr (Some a, s1)"
      and "assocs s1 a = Some A"
      and "s2 = run (cb A) (cb_arg A) repp msg
                  (s1\<lparr>utrace := utrace s1 @ [URecvMsg (cb A) (cb_arg A) repp msg]\<rparr>)"
      and "assocs s2 a = Some A2"
  shows "\<exists>s'. udp_assoc_received ext run repp msg s = Inr s' \<and>
           utrace s1 = utrace s @ [UAddref a] \<and>
           (\<exists>A0. assocs s a = Some A0 \<and> refcnt A = refcnt A0 + 1) \<and>
           utrace s' = utrace s2 @ UDelref a #
             (if refcnt A2 - 1 = 0 then udp_assoc_free_queue (rcv_queue A2) @ [UFreeAssoc a]
              else [])"
proof -
  have r: "udp_assoc_received ext run repp msg s = udp_assoc_delref a s2"
    using assms(1-3) by (simp add: udp_assoc_received_def)
  from udp_assoc_find_ref_found [OF assms(1)] assms(2)
  have f: "utrace s1 = utrace s @ [UAddref a]"
          "\<exists>A0. assocs s a = Some A0 \<and> refcnt A = refcnt A0 + 1"
    by auto
  from udp_assoc_delref_trace [OF assms(4)] r f show ?thesis by simp
qed

lemma example_find_ref:
  "udp_assoc_find_ref example_ext example_repp example_udp_state =
     Inr (Some 1, \<lparr>assocs = [1 \<mapsto> example_assoc\<lparr>refcnt := 3\<rparr>], assoc_list = [1],
                   utrace = [UAddref 1]\<rparr>)"
  by (simp add: udp_assoc_find_ref_def udp_assoc_addref_def udp_ep2_match_def udp_ep_match_def
        example_ext_def example_repp_def example_udp_state_def example_assoc_def ep4_def)

theorem udp_assoc_received_callback_then_delref_witness:
  "\<exists>s'. udp_assoc_received example_ext idle_recv_msg example_repp 60 example_udp_state = Inr s' \<and>
        utrace s' = [UAddref 1, URecvMsg 0 4 example_repp 60, UDelref 1]"
proof -
  let ?s1 = "\<lparr>assocs = [1 \<mapsto> example_assoc\<lparr>refcnt := 3\<rparr>], assoc_list = [1],
              utrace = [UAddref 1]\<rparr>"
  let ?A = "example_assoc\<lparr>refcnt := 3\<rparr>"
  let ?s2 = "?s1\<lparr>utrace := utrace ?s1 @ [URecvMsg (cb ?A) (cb_arg ?A) example_repp 60]\<rparr>"
  have a: "assocs ?s1 1 = Some ?A" by simp
  have b: "?s2 = idle_recv_msg (cb ?A) (cb_arg ?A) example_repp 60 ?s2"
    by (simp add: idle_recv_msg_def)
  have c: "assocs ?s2 1 = Some ?A" by simp
  from udp_assoc_received_callback_then_delref
         [where run = idle_recv_msg and msg = 60 and ?s2.0 = ?s2, OF example_find_ref a b c]
  obtain s' where
    "udp_assoc_received example_ext idle_recv_msg example_repp 60 example_udp_state = Inr s'"
    "utrace s' = utrace ?s2 @ UDelref 1 #
       (if refcnt ?A - 1 = 0 then udp_assoc_free_queue (rcv_queue ?A) @ [UFreeAssoc 1] else [])"
    by blast
  then show ?thesis by (simp add: example_assoc_def)
qed

end
